theory Spec2Isabelle
  imports Main
begin

section \<open>Strings\<close>

text \<open>
  A JavaScript string is a sequence of code units. The model uses \<^typ>\<open>string\<close>, a list
  of \<^typ>\<open>char\<close>, and reads each \<^typ>\<open>char\<close> as the code unit of the same number
  (U+0000 to U+00FF); \<open>length\<close> is then the \<open>.length\<close> of the source.
\<close>

text \<open>
  \<open>String.prototype.toLowerCase\<close> on that range: the letters A to Z and the Latin-1
  capitals U+00C0 to U+00DE (without the multiplication sign U+00D7) move up by 32,
  every other code unit stays.
\<close>

definition toLowerCase_char :: "char \<Rightarrow> char" where
  "toLowerCase_char c =
     (let n = (of_char c :: nat) in
      if (65 \<le> n \<and> n \<le> 90) \<or> (192 \<le> n \<and> n \<le> 214) \<or> (216 \<le> n \<and> n \<le> 222)
      then char_of (n + 32) else c)"

definition toLowerCase :: "string \<Rightarrow> string" where
  "toLowerCase s = map toLowerCase_char s"

text \<open>\<open>s.startsWith(t)\<close> and \<open>s.includes(t)\<close> (named \<open>includesStr\<close> here): \<open>t\<close> occurs in \<open>s\<close> as a contiguous run.\<close>

fun startsWith :: "string \<Rightarrow> string \<Rightarrow> bool" where
  "startsWith s [] = True"
| "startsWith [] (c # t) = False"
| "startsWith (d # s) (c # t) = (d = c \<and> startsWith s t)"

fun includesStr :: "string \<Rightarrow> string \<Rightarrow> bool" where
  "includesStr [] t = startsWith [] t"
| "includesStr (d # s) t = (startsWith (d # s) t \<or> includesStr s t)"

text \<open>
  \<open>String.prototype.trim\<close> removes white space and line terminators from both ends; in
  the range of the model these are the code units 9 to 13, 32 and 160.
\<close>

definition isWhiteSpace :: "char \<Rightarrow> bool" where
  "isWhiteSpace c = (let n = (of_char c :: nat) in (9 \<le> n \<and> n \<le> 13) \<or> n = 32 \<or> n = 160)"

definition trim :: "string \<Rightarrow> string" where
  "trim s = rev (dropWhile isWhiteSpace (rev (dropWhile isWhiteSpace s)))"

text \<open>\<open>parts.join(sep)\<close>.\<close>

fun join :: "string \<Rightarrow> string list \<Rightarrow> string" where
  "join sep [] = []"
| "join sep [x] = x"
| "join sep (x # y # ys) = x @ sep @ join sep (y # ys)"

section \<open>Client page: category heuristic\<close>

text \<open>
  \<open>getGoalCategory\<close> of \<open>client/src/pages/goals-page-backup.tsx\<close> (a copy of the goals
  page kept beside the one the application loads): the first rule whose keyword occurs
  in the lower-cased name decides.
\<close>

definition getGoalCategory :: "string \<Rightarrow> string" where
  "getGoalCategory goalName =
     (let name = toLowerCase goalName in
      if includesStr name ''read'' \<or> includesStr name ''learn'' \<or> includesStr name ''study''
        then ''Learning''
      else if includesStr name ''exercise'' \<or> includesStr name ''workout'' \<or> includesStr name ''run''
              \<or> includesStr name ''meditate''
        then ''Health''
      else if includesStr name ''save'' \<or> includesStr name ''budget'' \<or> includesStr name ''invest''
        then ''Financial''
      else if includesStr name ''family'' \<or> includesStr name ''friend''
              \<or> includesStr name ''relationship''
        then ''Relationships''
      else if includesStr name ''job'' \<or> includesStr name ''career'' \<or> includesStr name ''work''
        then ''Career''
      else ''Personal'')"

subsection \<open>Filtering suggested goals against the user's goals\<close>

text \<open>
  The page holds the user's goals (\<open>Goal\<close>, fetched for the logged-in user) and the
  suggested goals (the element type of \<open>AI_SUGGESTED_GOALS\<close>).
\<close>

record Goal =
  goal_id :: nat
  goal_name :: string
  goal_description :: "string option"
  goal_category :: string

record AiSuggestedGoal =
  ai_id :: string
  ai_name :: string
  ai_description :: string
  ai_category :: string
  ai_source :: string

text \<open>The callback of \<open>goals.some\<close>: is the suggestion similar to this goal of the user?\<close>

definition similarGoal :: "AiSuggestedGoal \<Rightarrow> Goal \<Rightarrow> bool" where
  "similarGoal aiGoal userGoal =
     (let aiGoalName = toLowerCase (ai_name aiGoal);
          userGoalName = toLowerCase (goal_name userGoal)
      in includesStr userGoalName aiGoalName \<or>
         includesStr aiGoalName userGoalName \<or>
         (includesStr aiGoalName ''meditate'' \<and> includesStr userGoalName ''meditat'') \<or>
         (includesStr aiGoalName ''read'' \<and> includesStr userGoalName ''read'') \<or>
         (includesStr aiGoalName ''learn'' \<and> includesStr userGoalName ''learn''))"

text \<open>
  The effect \<open>filteredAiSuggestedGoals\<close>: with at least one goal, the suggestions that are
  similar to no goal; with none, every suggestion.
\<close>

definition filteredAiSuggestedGoals :: "Goal list \<Rightarrow> AiSuggestedGoal list \<Rightarrow> AiSuggestedGoal list" where
  "filteredAiSuggestedGoals goals aiSuggestedGoals =
     (if length goals > 0
      then filter (\<lambda>aiGoal. \<not> list_ex (\<lambda>userGoal. similarGoal aiGoal userGoal) goals)
             aiSuggestedGoals
      else aiSuggestedGoals)"

subsection \<open>The other comparisons of the page\<close>

text \<open>
  \<open>onGoalSubmit\<close> and \<open>onHabitSubmit\<close> look for an existing goal or habit whose
  lower-cased name contains the lower-cased new name or is contained in it; the callback
  of \<open>filteredAiSuggestedHabits\<close> compares the lower-cased titles of a suggested habit
  and of a habit of the user, by containment or by a shared keyword.
\<close>

definition similarGoalOnSubmit :: "string \<Rightarrow> string \<Rightarrow> bool" where
  "similarGoalOnSubmit goalName valuesName =
     (includesStr (toLowerCase goalName) (toLowerCase valuesName) \<or>
      includesStr (toLowerCase valuesName) (toLowerCase goalName))"

definition similarHabitOnSubmit :: "string \<Rightarrow> string \<Rightarrow> bool" where
  "similarHabitOnSubmit habitTitle valuesTitle =
     (includesStr (toLowerCase habitTitle) (toLowerCase valuesTitle) \<or>
      includesStr (toLowerCase valuesTitle) (toLowerCase habitTitle))"

definition similarHabit :: "string \<Rightarrow> string \<Rightarrow> bool" where
  "similarHabit aiHabitTitleRaw userHabitTitleRaw =
     (let aiHabitTitle = toLowerCase aiHabitTitleRaw;
          userHabitTitle = toLowerCase userHabitTitleRaw
      in includesStr userHabitTitle aiHabitTitle \<or>
         includesStr aiHabitTitle userHabitTitle \<or>
         (includesStr aiHabitTitle ''water'' \<and> includesStr userHabitTitle ''water'') \<or>
         (includesStr aiHabitTitle ''walk'' \<and> includesStr userHabitTitle ''walk'') \<or>
         (includesStr aiHabitTitle ''meditate'' \<and> includesStr userHabitTitle ''meditat'') \<or>
         (includesStr aiHabitTitle ''read'' \<and> includesStr userHabitTitle ''read''))"

section \<open>Server: data\<close>

text \<open>
  \<open>req.user\<close> of a request: the session's user when there is one.
  \<open>req.isAuthenticated()\<close> holds exactly when it is set.
\<close>

record User =
  user_id :: nat
  user_isAdmin :: bool

type_synonym session = "User option"

text \<open>The result of \<open>analyzeSentiment\<close>, as the handlers read it.\<close>

record SentimentGoal =
  sg_name :: string
  sg_isNew :: bool
  sg_completion :: "nat option"

record Sentiment =
  sent_score :: int
  sent_emotions :: "string list"
  sent_themes :: "string list"
  sent_goals :: "SentimentGoal list"
  sent_tasks :: "string list"

text \<open>
  A row of the journal-entry table with the columns \<open>routes.ts\<close> writes. \<open>je_date\<close> is
  the instant the stored date string denotes; \<open>je_deleted\<close> is the recycle-bin mark.
\<close>

record JournalEntry =
  je_id :: nat
  je_userId :: nat
  je_content :: string
  je_title :: string
  je_date :: nat
  je_isAiResponse :: bool
  je_isJournal :: bool
  je_transcript :: "string option"
  je_analyzed :: bool
  je_sentiment :: "Sentiment option"
  je_deleted :: bool

text \<open>The durable goal, task and habit rows.\<close>

record GoalRow =
  g_id :: nat
  g_userId :: nat
  g_name :: string
  g_description :: "string option"
  g_category :: "string option"
  g_target :: nat
  g_progress :: nat
  g_unit :: string
  g_colorScheme :: nat
  g_status :: string

record TaskRow =
  t_id :: nat
  t_userId :: nat
  t_title :: string
  t_description :: "string option"
  t_goalId :: "nat option"
  t_completed :: bool

record HabitRow =
  h_id :: nat
  h_userId :: nat
  h_title :: string
  h_description :: "string option"
  h_frequency :: string

text \<open>The suggestion rows of the tables \<open>ai_goals\<close>, \<open>ai_tasks\<close> and \<open>ai_habits\<close>.\<close>

record AiGoal =
  aig_id :: nat
  aig_userId :: nat
  aig_name :: string
  aig_description :: "string option"
  aig_category :: "string option"
  aig_source :: string

record AiTask =
  ait_id :: nat
  ait_userId :: nat
  ait_title :: string
  ait_description :: "string option"
  ait_parentGoalId :: "nat option"
  ait_source :: string

record AiHabit =
  aih_id :: nat
  aih_userId :: nat
  aih_title :: string
  aih_description :: "string option"
  aih_frequency :: string
  aih_source :: string

text \<open>
  Calls that leave the process or start background work, in the order they are made:
  the language-model helpers of \<open>./openai\<close> (\<open>generateTaskSuggestions\<close> with the
  entries it is given), the extraction request of the suggestion module with the ids of
  the entries it is about, and the detached runs a handler starts without awaiting them.
\<close>

datatype Call =
    GenerateJournalTitle string
  | AnalyzeSentiment string
  | StoreEmbedding nat string
  | Extract "nat list"
  | GenerateTaskSuggestions "(string \<times> nat) list"
  | ProcessSingleEntry nat
  | ProcessAllEntries

text \<open>
  The state every handler works on: the tables, the next free row id, and the calls made
  so far.
\<close>

record World =
  journalEntries :: "JournalEntry list"
  goals :: "GoalRow list"
  tasks :: "TaskRow list"
  habits :: "HabitRow list"
  aiGoals :: "AiGoal list"
  aiTasks :: "AiTask list"
  aiHabits :: "AiHabit list"
  nextId :: nat
  calls :: "Call list"

definition logCall :: "Call \<Rightarrow> World \<Rightarrow> World" where
  "logCall c w = w\<lparr>calls := calls w @ [c]\<rparr>"

text \<open>What the extraction request returns: three lists of candidates.\<close>

record CandidateGoal =
  cg_name :: string
  cg_description :: string
  cg_category :: string

record CandidateTask =
  ct_title :: string
  ct_description :: string

record CandidateHabit =
  ch_title :: string
  ch_description :: string
  ch_frequency :: string

record ExtractionResult =
  er_goals :: "CandidateGoal list"
  er_tasks :: "CandidateTask list"
  er_habits :: "CandidateHabit list"

text \<open>
  The collaborators a handler cannot see into, as functions of their arguments; \<open>None\<close>
  (\<open>False\<close> for \<open>storeEmbedding\<close>) stands for a call that throws, and \<open>Inl message\<close> for
  an extraction that fails with that error text. \<open>now\<close> is the clock read by
  \<open>new Date()\<close>, \<open>openaiApiKey\<close> whether \<open>process.env.OPENAI_API_KEY\<close> is set.
  \<open>missingLimit\<close> is the number of entries that \<open>processAllEntriesForUser\<close> takes when
  it is called without a limit: the module that fixes it is not among the source files,
  so it is left open (a number at least that of the unanalyzed entries means no cap).
\<close>

record Env =
  generateJournalTitle :: "string \<Rightarrow> string option"
  analyzeSentiment :: "string \<Rightarrow> Sentiment option"
  storeEmbedding :: "nat \<Rightarrow> string \<Rightarrow> bool"
  extractSuggestions :: "(string \<times> nat) list \<Rightarrow> (string \<times> nat) list \<Rightarrow> (string \<times> bool) list
                \<Rightarrow> string + ExtractionResult"
  generateTaskSuggestions :: "(string \<times> nat) list \<Rightarrow> (string \<times> bool) list
                \<Rightarrow> (string \<times> nat) list \<Rightarrow> string list option"
  missingLimit :: nat
  now :: nat
  openaiApiKey :: bool

text \<open>The counters a run reports.\<close>

record RunSummary =
  goalsCreated :: nat
  tasksCreated :: nat
  habitsCreated :: nat
  goalsSkipped :: nat
  tasksSkipped :: nat
  habitsSkipped :: nat

definition zeroSummary :: RunSummary where
  "zeroSummary = \<lparr>goalsCreated = 0, tasksCreated = 0, habitsCreated = 0,
                   goalsSkipped = 0, tasksSkipped = 0, habitsSkipped = 0\<rparr>"

text \<open>
  A handler's answer: \<open>res.sendStatus(n)\<close>, \<open>res.status(n).json(body)\<close>, or
  \<open>res.status(n).json({ error: message })\<close>.
\<close>

datatype 'a response = SendStatus nat | Json nat 'a | JsonError nat string

fun statusCode :: "'a response \<Rightarrow> nat" where
  "statusCode (SendStatus n) = n"
| "statusCode (Json n b) = n"
| "statusCode (JsonError n m) = n"

section \<open>Storage\<close>

text \<open>
  Modelled from the spec: the persistence layer (\<open>server/storage.ts\<close>) is not among the
  source files. Each operation below is the one \<open>routes.ts\<close> calls by that name, with the
  meaning the specification gives the persistence boundary: create, list by user, get by
  id, update, delete, and promotion of a suggestion to a durable record. Row ids come from
  \<open>nextId\<close> and are never handed out twice. A database failure is not part of the model.
\<close>

text \<open>Modelled from the spec: get by id.\<close>

definition getJournalEntryById :: "nat \<Rightarrow> World \<Rightarrow> JournalEntry option" where
  "getJournalEntryById i w = find (\<lambda>e. je_id e = i) (journalEntries w)"

text \<open>
  Modelled from the spec: create. The caller's object carries every column but the id;
  the stored row gets the next free id and is returned.
\<close>

definition createJournalEntry :: "JournalEntry \<Rightarrow> World \<Rightarrow> JournalEntry \<times> World" where
  "createJournalEntry ins w =
     (let e = ins\<lparr>je_id := nextId w\<rparr>
      in (e, w\<lparr>journalEntries := journalEntries w @ [e], nextId := Suc (nextId w)\<rparr>))"

text \<open>Modelled from the spec: update of the row with the given id by a partial object.\<close>

definition updateJournalEntry :: "nat \<Rightarrow> (JournalEntry \<Rightarrow> JournalEntry) \<Rightarrow> World \<Rightarrow> World" where
  "updateJournalEntry i upd w =
     w\<lparr>journalEntries := map (\<lambda>e. if je_id e = i then upd e else e) (journalEntries w)\<rparr>"

text \<open>Modelled from the spec: the partial object \<open>{ analyzed: true }\<close>.\<close>

definition setAnalyzedTrue :: "JournalEntry \<Rightarrow> JournalEntry" where
  "setAnalyzedTrue e = e\<lparr>je_analyzed := True\<rparr>"

text \<open>Modelled from the spec: store the sentiment of an entry.\<close>

definition updateJournalEntrySentiment :: "nat \<Rightarrow> Sentiment \<Rightarrow> World \<Rightarrow> World" where
  "updateJournalEntrySentiment i sentiment w =
     updateJournalEntry i (\<lambda>e. e\<lparr>je_sentiment := Some sentiment\<rparr>) w"

text \<open>
  Modelled from the spec: delete moves an entry to the recycle bin, restore takes it
  back, permanent deletion removes the row.
\<close>

definition deleteJournalEntry :: "nat \<Rightarrow> World \<Rightarrow> World" where
  "deleteJournalEntry i w = updateJournalEntry i (\<lambda>e. e\<lparr>je_deleted := True\<rparr>) w"

definition restoreJournalEntry :: "nat \<Rightarrow> World \<Rightarrow> World" where
  "restoreJournalEntry i w = updateJournalEntry i (\<lambda>e. e\<lparr>je_deleted := False\<rparr>) w"

definition permanentlyDeleteJournalEntry :: "nat \<Rightarrow> World \<Rightarrow> World" where
  "permanentlyDeleteJournalEntry i w =
     w\<lparr>journalEntries := filter (\<lambda>e. je_id e \<noteq> i) (journalEntries w)\<rparr>"

text \<open>
  Modelled from the spec: the latest \<open>n\<close> entries of a user that are not in the recycle
  bin, newest first.
\<close>

definition getRecentJournalEntriesByUserId :: "nat \<Rightarrow> nat \<Rightarrow> World \<Rightarrow> JournalEntry list" where
  "getRecentJournalEntriesByUserId userId n w =
     take n (rev (sort_key je_date
       (filter (\<lambda>e. je_userId e = userId \<and> \<not> je_deleted e) (journalEntries w))))"

text \<open>
  Modelled from the spec: the entries of a user with \<open>isJournal == true && analyzed ==
  false\<close>, oldest first.
\<close>

definition getUnanalyzedJournalEntriesByUserId :: "nat \<Rightarrow> World \<Rightarrow> JournalEntry list" where
  "getUnanalyzedJournalEntriesByUserId userId w =
     sort_key je_date
       (filter (\<lambda>e. je_userId e = userId \<and> je_isJournal e \<and> \<not> je_analyzed e) (journalEntries w))"

text \<open>Modelled from the spec: list by user, for the durable tables.\<close>

definition getGoalsByUserId :: "nat \<Rightarrow> World \<Rightarrow> GoalRow list" where
  "getGoalsByUserId userId w = filter (\<lambda>g. g_userId g = userId) (goals w)"

definition getTasksByUserId :: "nat \<Rightarrow> World \<Rightarrow> TaskRow list" where
  "getTasksByUserId userId w = filter (\<lambda>t. t_userId t = userId) (tasks w)"

definition getHabitsByUserId :: "nat \<Rightarrow> World \<Rightarrow> HabitRow list" where
  "getHabitsByUserId userId w = filter (\<lambda>h. h_userId h = userId) (habits w)"

text \<open>Modelled from the spec: create a durable goal; set the progress of one.\<close>

definition createGoal :: "GoalRow \<Rightarrow> World \<Rightarrow> GoalRow \<times> World" where
  "createGoal ins w =
     (let g = ins\<lparr>g_id := nextId w\<rparr>
      in (g, w\<lparr>goals := goals w @ [g], nextId := Suc (nextId w)\<rparr>))"

definition updateGoalProgress :: "nat \<Rightarrow> nat \<Rightarrow> World \<Rightarrow> World" where
  "updateGoalProgress i progress w =
     w\<lparr>goals := map (\<lambda>g. if g_id g = i then g\<lparr>g_progress := progress\<rparr> else g) (goals w)\<rparr>"

text \<open>Modelled from the spec: list by user and get by id, for the suggestion tables.\<close>

definition getAiGoalsByUserId :: "nat \<Rightarrow> World \<Rightarrow> AiGoal list" where
  "getAiGoalsByUserId userId w = filter (\<lambda>g. aig_userId g = userId) (aiGoals w)"

definition getAiTasksByUserId :: "nat \<Rightarrow> World \<Rightarrow> AiTask list" where
  "getAiTasksByUserId userId w = filter (\<lambda>t. ait_userId t = userId) (aiTasks w)"

definition getAiHabitsByUserId :: "nat \<Rightarrow> World \<Rightarrow> AiHabit list" where
  "getAiHabitsByUserId userId w = filter (\<lambda>h. aih_userId h = userId) (aiHabits w)"

definition getAiGoalById :: "nat \<Rightarrow> World \<Rightarrow> AiGoal option" where
  "getAiGoalById i w = find (\<lambda>g. aig_id g = i) (aiGoals w)"

definition getAiTaskById :: "nat \<Rightarrow> World \<Rightarrow> AiTask option" where
  "getAiTaskById i w = find (\<lambda>t. ait_id t = i) (aiTasks w)"

definition getAiHabitById :: "nat \<Rightarrow> World \<Rightarrow> AiHabit option" where
  "getAiHabitById i w = find (\<lambda>h. aih_id h = i) (aiHabits w)"

text \<open>
  Modelled from the spec: \<open>getAISuggestedGoals\<close> and \<open>getAISuggestedHabits\<close>, the lists
  the suggestion endpoints send along: the suggested goals and habits of the user.
\<close>

definition getAISuggestedGoals :: "nat \<Rightarrow> World \<Rightarrow> AiGoal list" where
  "getAISuggestedGoals userId w = filter (\<lambda>g. aig_userId g = userId) (aiGoals w)"

definition getAISuggestedHabits :: "nat \<Rightarrow> World \<Rightarrow> AiHabit list" where
  "getAISuggestedHabits userId w = filter (\<lambda>h. aih_userId h = userId) (aiHabits w)"

text \<open>Modelled from the spec: create a suggestion row.\<close>

definition createAiGoal :: "AiGoal \<Rightarrow> World \<Rightarrow> World" where
  "createAiGoal ins w =
     w\<lparr>aiGoals := aiGoals w @ [ins\<lparr>aig_id := nextId w\<rparr>], nextId := Suc (nextId w)\<rparr>"

definition createAiTask :: "AiTask \<Rightarrow> World \<Rightarrow> World" where
  "createAiTask ins w =
     w\<lparr>aiTasks := aiTasks w @ [ins\<lparr>ait_id := nextId w\<rparr>], nextId := Suc (nextId w)\<rparr>"

definition createAiHabit :: "AiHabit \<Rightarrow> World \<Rightarrow> World" where
  "createAiHabit ins w =
     w\<lparr>aiHabits := aiHabits w @ [ins\<lparr>aih_id := nextId w\<rparr>], nextId := Suc (nextId w)\<rparr>"

text \<open>Modelled from the spec: delete the suggestion row with the given id.\<close>

definition deleteAiGoal :: "nat \<Rightarrow> World \<Rightarrow> World" where
  "deleteAiGoal i w = w\<lparr>aiGoals := filter (\<lambda>g. aig_id g \<noteq> i) (aiGoals w)\<rparr>"

definition deleteAiTask :: "nat \<Rightarrow> World \<Rightarrow> World" where
  "deleteAiTask i w = w\<lparr>aiTasks := filter (\<lambda>t. ait_id t \<noteq> i) (aiTasks w)\<rparr>"

definition deleteAiHabit :: "nat \<Rightarrow> World \<Rightarrow> World" where
  "deleteAiHabit i w = w\<lparr>aiHabits := filter (\<lambda>h. aih_id h \<noteq> i) (aiHabits w)\<rparr>"

text \<open>
  Modelled from the spec: promotion. The durable record is created from the suggestion
  with default progress and status and the suggestion row is deleted, as one step; with
  no such suggestion the call fails (\<open>None\<close>).
\<close>

definition acceptAiGoal :: "nat \<Rightarrow> World \<Rightarrow> (GoalRow \<times> World) option" where
  "acceptAiGoal i w =
     (case getAiGoalById i w of
        None \<Rightarrow> None
      | Some s \<Rightarrow>
          let g = \<lparr>g_id = nextId w, g_userId = aig_userId s, g_name = aig_name s,
                   g_description = aig_description s, g_category = aig_category s,
                   g_target = 100, g_progress = 0, g_unit = ''%'', g_colorScheme = 1,
                   g_status = ''in_progress''\<rparr>
          in Some (g, deleteAiGoal i (w\<lparr>goals := goals w @ [g], nextId := Suc (nextId w)\<rparr>)))"

definition acceptAiTask :: "nat \<Rightarrow> World \<Rightarrow> (TaskRow \<times> World) option" where
  "acceptAiTask i w =
     (case getAiTaskById i w of
        None \<Rightarrow> None
      | Some s \<Rightarrow>
          let t = \<lparr>t_id = nextId w, t_userId = ait_userId s, t_title = ait_title s,
                   t_description = ait_description s, t_goalId = ait_parentGoalId s,
                   t_completed = False\<rparr>
          in Some (t, deleteAiTask i (w\<lparr>tasks := tasks w @ [t], nextId := Suc (nextId w)\<rparr>)))"

definition acceptAiHabit :: "nat \<Rightarrow> World \<Rightarrow> (HabitRow \<times> World) option" where
  "acceptAiHabit i w =
     (case getAiHabitById i w of
        None \<Rightarrow> None
      | Some s \<Rightarrow>
          let h = \<lparr>h_id = nextId w, h_userId = aih_userId s, h_title = aih_title s,
                   h_description = aih_description s, h_frequency = aih_frequency s\<rparr>
          in Some (h, deleteAiHabit i (w\<lparr>habits := habits w @ [h], nextId := Suc (nextId w)\<rparr>)))"

section \<open>Normalizer, similarity matcher and suggestion pipeline\<close>

text \<open>
  Modelled from the spec: the module \<open>./ai-suggestion-module\<close>, from which \<open>routes.ts\<close>
  imports \<open>processSingleEntry\<close>, \<open>processAllEntriesForUser\<close> and \<open>processAllEntries\<close>, is
  not among the source files. The definitions of this section follow sections 4.1, 4.2,
  4.4 and 4.5 of the specification.
\<close>

text \<open>
  Modelled from the spec: \<open>normalize\<close> lower-cases, trims, collapses white space and
  strips terminal punctuation, in this order. The specification does not list the
  punctuation marks; the model takes the full stop, comma, semicolon, colon, exclamation
  mark and question mark.
\<close>

definition isPunctuation :: "char \<Rightarrow> bool" where
  "isPunctuation c = (c \<in> set ''.,;:!?'')"

fun collapseWhitespace :: "string \<Rightarrow> string" where
  "collapseWhitespace [] = []"
| "collapseWhitespace [c] = [if isWhiteSpace c then CHR '' '' else c]"
| "collapseWhitespace (c # d # s) =
     (if isWhiteSpace c \<and> isWhiteSpace d then collapseWhitespace (d # s)
      else (if isWhiteSpace c then CHR '' '' else c) # collapseWhitespace (d # s))"

definition stripTerminalPunctuation :: "string \<Rightarrow> string" where
  "stripTerminalPunctuation s = rev (dropWhile isPunctuation (rev s))"

definition normalize :: "string \<Rightarrow> string" where
  "normalize text = stripTerminalPunctuation (collapseWhitespace (trim (toLowerCase text)))"

text \<open>
  Modelled from the spec: \<open>isDuplicate\<close> normalizes both sides and matches when the
  canonical forms are equal, when one is a substring of the other, or when both contain
  a strong keyword of the curated stem list, for which the specification names
  "meditat-", "read", "walk" and "water".
\<close>

definition strongKeywords :: "string list" where
  "strongKeywords = [''meditat'', ''read'', ''walk'', ''water'']"

definition sameItem :: "string \<Rightarrow> string \<Rightarrow> bool" where
  "sameItem candidateText existingText =
     (let c = normalize candidateText; e = normalize existingText
      in c = e \<or> includesStr c e \<or> includesStr e c \<or>
         list_ex (\<lambda>k. includesStr c k \<and> includesStr e k) strongKeywords)"

definition isDuplicate :: "string \<Rightarrow> string list \<Rightarrow> bool" where
  "isDuplicate candidateText existingTexts = list_ex (sameItem candidateText) existingTexts"

text \<open>
  Modelled from the spec: the entry selector. \<open>selectUnanalyzed\<close> caps the unanalyzed
  entries of the user, oldest first, at \<open>limit\<close>; \<open>markAnalyzed\<close> sets the flag of the
  entries with the given ids. The gate on short entries of section 4.4 is the one the
  handler of POST /api/journal-entries applies before it starts a run.
\<close>

definition selectUnanalyzed :: "nat \<Rightarrow> nat \<Rightarrow> World \<Rightarrow> JournalEntry list" where
  "selectUnanalyzed userId limit w = take limit (getUnanalyzedJournalEntriesByUserId userId w)"

definition markAnalyzed :: "nat list \<Rightarrow> World \<Rightarrow> World" where
  "markAnalyzed entryIds w = fold (\<lambda>i. updateJournalEntry i setAnalyzedTrue) entryIds w"

text \<open>
  Modelled from the spec: step 4 of \<open>runForUser\<close> for one category. A candidate that
  duplicates a text of the pool is skipped; any other is persisted and its normalized
  text joins the pool for the candidates after it. The result is the number created,
  the number skipped and the state.
\<close>

fun dedupLoop :: "('c \<Rightarrow> string) \<Rightarrow> ('c \<Rightarrow> World \<Rightarrow> World) \<Rightarrow> 'c list \<Rightarrow> string list \<Rightarrow> World
                    \<Rightarrow> nat \<times> nat \<times> World" where
  "dedupLoop textOf persist [] pool w = (0, 0, w)"
| "dedupLoop textOf persist (c # cs) pool w =
     (if isDuplicate (textOf c) pool
      then (case dedupLoop textOf persist cs pool w of
              (created, skipped, w') \<Rightarrow> (created, Suc skipped, w'))
      else (case dedupLoop textOf persist cs (pool @ [normalize (textOf c)]) (persist c w) of
              (created, skipped, w') \<Rightarrow> (Suc created, skipped, w')))"

text \<open>Modelled from the spec: a surviving candidate becomes a suggestion row with source "AI".\<close>

definition persistGoal :: "nat \<Rightarrow> CandidateGoal \<Rightarrow> World \<Rightarrow> World" where
  "persistGoal userId c w =
     createAiGoal \<lparr>aig_id = 0, aig_userId = userId, aig_name = cg_name c,
                   aig_description = Some (cg_description c),
                   aig_category = Some (cg_category c), aig_source = ''AI''\<rparr> w"

definition persistTask :: "nat \<Rightarrow> CandidateTask \<Rightarrow> World \<Rightarrow> World" where
  "persistTask userId c w =
     createAiTask \<lparr>ait_id = 0, ait_userId = userId, ait_title = ct_title c,
                   ait_description = Some (ct_description c),
                   ait_parentGoalId = None, ait_source = ''AI''\<rparr> w"

definition persistHabit :: "nat \<Rightarrow> CandidateHabit \<Rightarrow> World \<Rightarrow> World" where
  "persistHabit userId c w =
     createAiHabit \<lparr>aih_id = 0, aih_userId = userId, aih_title = ch_title c,
                    aih_description = Some (ch_description c),
                    aih_frequency = ch_frequency c, aih_source = ''AI''\<rparr> w"

text \<open>
  Modelled from the spec: the pools of step 2, the texts a candidate of each category is
  checked against: the durable and the suggested items of the user.
\<close>

definition goalPool :: "nat \<Rightarrow> World \<Rightarrow> string list" where
  "goalPool userId w =
     map g_name (getGoalsByUserId userId w) @ map aig_name (getAiGoalsByUserId userId w)"

definition taskPool :: "nat \<Rightarrow> World \<Rightarrow> string list" where
  "taskPool userId w =
     map t_title (getTasksByUserId userId w) @ map ait_title (getAiTasksByUserId userId w)"

definition habitPool :: "nat \<Rightarrow> World \<Rightarrow> string list" where
  "habitPool userId w =
     map h_title (getHabitsByUserId userId w) @ map aih_title (getAiHabitsByUserId userId w)"

text \<open>
  Modelled from the spec: the one call of step 3, with the batch of entries and the
  existing goals and tasks as context.
\<close>

definition extraction :: "Env \<Rightarrow> nat \<Rightarrow> nat \<Rightarrow> World \<Rightarrow> string + ExtractionResult" where
  "extraction env userId limit w =
     extractSuggestions env
       (map (\<lambda>e. (je_content e, je_date e)) (selectUnanalyzed userId limit w))
       (map (\<lambda>g. (g_name g, g_progress g)) (getGoalsByUserId userId w))
       (map (\<lambda>t. (t_title t, t_completed t)) (getTasksByUserId userId w))"

text \<open>
  Modelled from the spec: \<open>runForUser\<close>, steps 1 to 6. With no unanalyzed entry the
  summary is all zero and the extraction client is not contacted. A failing extraction
  aborts the run with the error and leaves the entries unanalyzed. Otherwise each
  category is deduplicated against its pool, and the entries considered are marked
  analyzed.
\<close>

definition runForUser :: "Env \<Rightarrow> nat \<Rightarrow> nat \<Rightarrow> World \<Rightarrow> (string + RunSummary) \<times> World" where
  "runForUser env userId limit w =
     (let entries = selectUnanalyzed userId limit w in
      if entries = [] then (Inr zeroSummary, w)
      else
        let w0 = logCall (Extract (map je_id entries)) w
        in case extraction env userId limit w of
             Inl err \<Rightarrow> (Inl err, w0)
           | Inr r \<Rightarrow>
               (case dedupLoop cg_name (persistGoal userId) (er_goals r) (goalPool userId w) w0 of
                  (gc, gs, w1) \<Rightarrow>
               (case dedupLoop ct_title (persistTask userId) (er_tasks r) (taskPool userId w) w1 of
                  (tc, ts, w2) \<Rightarrow>
               (case dedupLoop ch_title (persistHabit userId) (er_habits r) (habitPool userId w) w2 of
                  (hc, hs, w3) \<Rightarrow>
                    (Inr \<lparr>goalsCreated = gc, tasksCreated = tc, habitsCreated = hc,
                          goalsSkipped = gs, tasksSkipped = ts, habitsSkipped = hs\<rparr>,
                     markAnalyzed (map je_id entries) w3)))))"

text \<open>
  Modelled from the spec: \<open>processAllEntriesForUser(userId, limit?)\<close> as \<open>routes.ts\<close>
  calls it, with the limit 3 or with none. It is the run of the specification with the
  limit passed; without one, with \<open>missingLimit\<close>.
\<close>

definition processAllEntriesForUser :: "Env \<Rightarrow> nat \<Rightarrow> nat option \<Rightarrow> World
                                          \<Rightarrow> (string + RunSummary) \<times> World" where
  "processAllEntriesForUser env userId limit w =
     runForUser env userId (case limit of Some n \<Rightarrow> n | None \<Rightarrow> missingLimit env) w"

section \<open>Route handlers of \<open>server/routes.ts\<close>\<close>

text \<open>
  Each handler takes the session's user, the request's parameters or body and the state,
  and returns the response with the state it leaves. \<open>Number(req.params.id)\<close> is a
  natural number here. The body of a request holds the fields the handler reads; a
  field that is absent is \<open>None\<close>.
\<close>

record JournalBody =
  jb_content :: "string option"
  jb_userId :: "nat option"
  jb_transcript :: "string option"
  jb_date :: "nat option"

record ChatBody =
  cb_userId :: "nat option"
  cb_date :: "nat option"

definition defaultSentiment :: Sentiment where
  "defaultSentiment = \<lparr>sent_score = 0, sent_emotions = [], sent_themes = [],
                         sent_goals = [], sent_tasks = []\<rparr>"

text \<open>
  The update of a goal's progress from a goal named by the sentiment analysis: when a
  completion is given, the first goal of the user whose lower-cased name equals the
  lower-cased name (\<open>sameGoalName\<close>, the comparison both save handlers make) is set to it.
\<close>

definition sameGoalName :: "string \<Rightarrow> string \<Rightarrow> bool" where
  "sameGoalName existingName goalName = (toLowerCase existingName = toLowerCase goalName)"

definition updateMatchingGoal :: "nat \<Rightarrow> SentimentGoal \<Rightarrow> World \<Rightarrow> World" where
  "updateMatchingGoal userId goal w =
     (case sg_completion goal of
        None \<Rightarrow> w
      | Some completion \<Rightarrow>
          (case find (\<lambda>g. sameGoalName (g_name g) (sg_name goal))
                  (getGoalsByUserId userId w) of
             None \<Rightarrow> w
           | Some matchingGoal \<Rightarrow> updateGoalProgress (g_id matchingGoal) completion w))"

subsection \<open>POST /api/journal-entries\<close>

text \<open>
  The sentiment of a new entry: the default when \<open>analyzeSentiment\<close> throws; otherwise
  the result, which is stored with the entry.
\<close>

definition analyzeAndStore :: "Env \<Rightarrow> nat \<Rightarrow> string \<Rightarrow> World \<Rightarrow> Sentiment \<times> World" where
  "analyzeAndStore env entryId content w =
     (let w' = logCall (AnalyzeSentiment content) w
      in case analyzeSentiment env content of
           Some sn \<Rightarrow> (sn, updateJournalEntrySentiment entryId sn w')
         | None \<Rightarrow> (defaultSentiment, w'))"

text \<open>
  A content longer than 100 starts \<open>processSingleEntry\<close> for the entry; a shorter one
  gets \<open>{ analyzed: true }\<close> at once. \<open>processSingleEntry\<close> is an \<open>async\<close> function that
  the handler does not await: starting it is recorded as a call, and what it does later
  is a run of the pipeline.
\<close>

definition startOrMark :: "nat \<Rightarrow> string \<Rightarrow> World \<Rightarrow> World" where
  "startOrMark entryId content w =
     (if length content > 100
      then logCall (ProcessSingleEntry entryId) w
      else updateJournalEntry entryId setAnalyzedTrue w)"

text \<open>
  The steps after validation, for a content that is present and not blank: title, row
  creation with \<open>analyzed: false\<close>, sentiment, suggestion processing or the immediate
  mark, goal progress, embedding, and the answer 201 with the row as it was created.
\<close>

definition saveJournalEntry :: "Env \<Rightarrow> nat \<Rightarrow> string \<Rightarrow> JournalBody \<Rightarrow> World
                                 \<Rightarrow> JournalEntry list response \<times> World" where
  "saveJournalEntry env userId content body w =
     (let entryDate = (case jb_date body of Some d \<Rightarrow> d | None \<Rightarrow> now env);
          w1 = logCall (GenerateJournalTitle content) w;
          title = (case generateJournalTitle env content of
                     Some t \<Rightarrow> t | None \<Rightarrow> ''Journal Entry'');
          transcript = (case jb_transcript body of
                          Some t \<Rightarrow> if t \<noteq> [] then t else content
                        | None \<Rightarrow> content);
          (journalEntry, w2) = createJournalEntry
             \<lparr>je_id = 0, je_userId = userId, je_content = content, je_title = title,
              je_date = entryDate, je_isAiResponse = False, je_isJournal = True,
              je_transcript = Some transcript, je_analyzed = False,
              je_sentiment = None, je_deleted = False\<rparr> w1;
          (sentiment, w3) = analyzeAndStore env (je_id journalEntry) content w2;
          w4 = startOrMark (je_id journalEntry) content w3;
          w5 = fold (updateMatchingGoal userId) (sent_goals sentiment) w4;
          w6 = logCall (StoreEmbedding (je_id journalEntry) content) w5
      in (Json 201 [journalEntry], w6))"

definition postJournalEntries :: "Env \<Rightarrow> session \<Rightarrow> JournalBody \<Rightarrow> World
                                   \<Rightarrow> JournalEntry list response \<times> World" where
  "postJournalEntries env req_user body w =
     (case req_user of
        None \<Rightarrow> (SendStatus 401, w)
      | Some u \<Rightarrow>
          if Some (user_id u) \<noteq> jb_userId body then (SendStatus 403, w)
          else
            (case jb_content body of
               None \<Rightarrow> (JsonError 400 ''Content is required for journal entries'', w)
             | Some content \<Rightarrow>
                 if content = [] \<or> trim content = []
                 then (JsonError 400 ''Content is required for journal entries'', w)
                 else saveJournalEntry env (user_id u) content body w))"

subsection \<open>POST /api/journal-entries/save-chat\<close>

text \<open>
  The goals named by the sentiment analysis of a chat: a new one is created as a durable
  goal, any other with a completion updates the matching goal.
\<close>

definition processChatGoal :: "nat \<Rightarrow> SentimentGoal \<Rightarrow> World \<Rightarrow> World" where
  "processChatGoal userId goal w =
     (if sg_isNew goal
      then snd (createGoal \<lparr>g_id = 0, g_userId = userId, g_name = sg_name goal,
                           g_description = None, g_category = None, g_target = 100,
                           g_progress = 0, g_unit = ''%'', g_colorScheme = 1,
                           g_status = ''in_progress''\<rparr> w)
      else updateMatchingGoal userId goal w)"

text \<open>
  The chat turns of the user (the recent entries with \<open>isJournal\<close> false) become one
  journal entry: the transcript joins them in order of date, the content is the last
  message of the user. The entry is created with \<open>analyzed: false\<close> and handed to
  \<open>processSingleEntry\<close> whatever its length; then the chat turns are deleted. A failing
  \<open>storeEmbedding\<close> is not caught on its own and ends the request with 500.
\<close>

definition saveChat :: "Env \<Rightarrow> session \<Rightarrow> ChatBody \<Rightarrow> World \<Rightarrow> JournalEntry response \<times> World" where
  "saveChat env req_user body w =
     (case req_user of
        None \<Rightarrow> (SendStatus 401, w)
      | Some u \<Rightarrow>
          if Some (user_id u) \<noteq> cb_userId body then (SendStatus 403, w)
          else
            let userId = user_id u;
                recentEntries = getRecentJournalEntriesByUserId userId 50 w;
                chatEntries = sort_key je_date (filter (\<lambda>e. \<not> je_isJournal e) recentEntries)
            in if chatEntries = [] then (JsonError 400 ''No chat entries to save'', w)
               else
                 let transcript = join ''\<newline>\<newline>''
                       (map (\<lambda>e. (if je_isAiResponse e then ''Hope Log: '' else ''You: '')
                                    @ je_content e) chatEntries);
                     userMessages = filter (\<lambda>e. \<not> je_isAiResponse e) chatEntries;
                     content = (if userMessages \<noteq> [] then je_content (last userMessages)
                                else ''Chat transcript'');
                     w1 = logCall (GenerateJournalTitle transcript) w;
                     title = (case generateJournalTitle env transcript of
                                Some t \<Rightarrow> t | None \<Rightarrow> ''Chat Transcript'');
                     w2 = logCall (AnalyzeSentiment transcript) w1;
                     sentiment = (case analyzeSentiment env transcript of
                                    Some sn \<Rightarrow> sn | None \<Rightarrow> defaultSentiment);
                     entryDate = (case cb_date body of Some d \<Rightarrow> d | None \<Rightarrow> now env);
                     (journalEntry, w3) = createJournalEntry
                        \<lparr>je_id = 0, je_userId = userId, je_content = content, je_title = title,
                         je_date = entryDate, je_isAiResponse = False, je_isJournal = True,
                         je_transcript = Some transcript, je_analyzed = False,
                         je_sentiment = None, je_deleted = False\<rparr> w2;
                     w4 = updateJournalEntrySentiment (je_id journalEntry) sentiment w3;
                     updatedEntry = journalEntry\<lparr>je_sentiment := Some sentiment\<rparr>;
                     w5 = fold (processChatGoal userId) (sent_goals sentiment) w4;
                     w6 = logCall (StoreEmbedding (je_id journalEntry) transcript) w5
                 in if \<not> storeEmbedding env (je_id journalEntry) transcript
                    then (JsonError 500 ''Failed to save chat transcript'', w6)
                    else
                      let w7 = logCall (ProcessSingleEntry (je_id journalEntry)) w6;
                          w8 = fold (\<lambda>e. deleteJournalEntry (je_id e)) chatEntries w7
                      in (Json 201 updatedEntry, w8))"

subsection \<open>Deleting and restoring journal entries\<close>

text \<open>
  DELETE /api/journal-entries/:id, POST /api/journal-entries/:id/restore and
  DELETE /api/journal-entries/:id/permanent share one shape: the entry must exist (404)
  and belong to the session's user (403, with the handler's own message); then the
  storage operation runs. The body of the success answer is left out.
\<close>

definition entryHandler :: "(nat \<Rightarrow> World \<Rightarrow> World) \<Rightarrow> string \<Rightarrow> session \<Rightarrow> nat \<Rightarrow> World
                             \<Rightarrow> unit response \<times> World" where
  "entryHandler storageOp forbidden req_user entryId w =
     (case req_user of
        None \<Rightarrow> (SendStatus 401, w)
      | Some u \<Rightarrow>
          (case getJournalEntryById entryId w of
             None \<Rightarrow> (JsonError 404 ''Journal entry not found'', w)
           | Some entry \<Rightarrow>
               if je_userId entry \<noteq> user_id u then (JsonError 403 forbidden, w)
               else (Json 200 (), storageOp entryId w)))"

definition deleteJournalEntryHandler :: "session \<Rightarrow> nat \<Rightarrow> World \<Rightarrow> unit response \<times> World" where
  "deleteJournalEntryHandler =
     entryHandler deleteJournalEntry ''You don't have permission to delete this entry''"

definition restoreJournalEntryHandler :: "session \<Rightarrow> nat \<Rightarrow> World \<Rightarrow> unit response \<times> World" where
  "restoreJournalEntryHandler =
     entryHandler restoreJournalEntry ''You don't have permission to restore this entry''"

definition permanentDeleteHandler :: "session \<Rightarrow> nat \<Rightarrow> World \<Rightarrow> unit response \<times> World" where
  "permanentDeleteHandler =
     entryHandler permanentlyDeleteJournalEntry
       ''You don't have permission to delete this entry''"

subsection \<open>Generating suggestions\<close>

text \<open>
  \<open>processAllEntriesForUser\<close> is imported from the suggestion module; the handlers take
  it as the parameter \<open>run\<close>: the user, the limit when one is passed, and the state, to
  the summary or the text of the error thrown, with the state left.
\<close>

type_synonym pipeline = "nat \<Rightarrow> nat option \<Rightarrow> World \<Rightarrow> (string + RunSummary) \<times> World"

text \<open>The body the suggestion endpoints answer with; a list an endpoint does not send is \<open>None\<close>.\<close>

record SuggestionsBody =
  sb_goals :: "AiGoal list option"
  sb_habits :: "AiHabit list option"
  sb_summary :: RunSummary
  sb_message :: "string option"

definition noEntriesMessage :: string where
  "noEntriesMessage =
     ''No journal entries to analyze. Write in your journal first to get suggestions.''"

definition missingKeyMessage :: string where
  "missingKeyMessage =
     ''OpenAI API key is missing. Please contact support to enable AI features.''"

definition aiSystemMessage :: string where
  "aiSystemMessage =
     ''There was an issue with the AI suggestion system. Please try again later or contact support.''"

text \<open>
  The shape the goal and the habit endpoint share: 401 without a session, 403 for
  another user's id, 500 without the API key; with no unanalyzed entry the all-zero
  summary, without calling \<open>run\<close>; otherwise \<open>run userId 3\<close> and its summary, or 500 with
  a message chosen by the error text. \<open>emptyBody\<close> and \<open>fullBody\<close> build what the
  endpoint sends along.
\<close>

definition suggestionsHandler :: "(nat \<Rightarrow> World \<Rightarrow> RunSummary \<Rightarrow> string option \<Rightarrow> SuggestionsBody)
                                   \<Rightarrow> (nat \<Rightarrow> World \<Rightarrow> RunSummary \<Rightarrow> string option \<Rightarrow> SuggestionsBody)
                                   \<Rightarrow> string \<Rightarrow> pipeline \<Rightarrow> Env \<Rightarrow> session \<Rightarrow> nat \<Rightarrow> World
                                   \<Rightarrow> SuggestionsBody response \<times> World" where
  "suggestionsHandler emptyBody fullBody failed run env req_user userId w =
     (case req_user of
        None \<Rightarrow> (SendStatus 401, w)
      | Some u \<Rightarrow>
          if user_id u \<noteq> userId then (SendStatus 403, w)
          else if \<not> openaiApiKey env then (JsonError 500 missingKeyMessage, w)
          else
            let journalEntries = getUnanalyzedJournalEntriesByUserId userId w
            in if length journalEntries = 0
               then (Json 200 (emptyBody userId w zeroSummary (Some noEntriesMessage)), w)
               else (case run userId (Some 3) w of
                       (Inr result, w') \<Rightarrow>
                         (Json 200 (fullBody userId w'
                            \<lparr>goalsCreated = goalsCreated result,
                             tasksCreated = tasksCreated result,
                             habitsCreated = habitsCreated result,
                             goalsSkipped = goalsSkipped result,
                             tasksSkipped = tasksSkipped result,
                             habitsSkipped = habitsSkipped result\<rparr> None), w')
                     | (Inl err, w') \<Rightarrow>
                         (JsonError 500
                            (if includesStr err ''OpenAI API'' then aiSystemMessage else failed),
                          w')))"

text \<open>GET /api/goals/:userId/generate-suggestions.\<close>

definition generateSuggestions :: "pipeline \<Rightarrow> Env \<Rightarrow> session \<Rightarrow> nat \<Rightarrow> World
                                    \<Rightarrow> SuggestionsBody response \<times> World" where
  "generateSuggestions =
     suggestionsHandler
       (\<lambda>userId w summary message.
          \<lparr>sb_goals = Some [], sb_habits = Some [],
           sb_summary = summary, sb_message = message\<rparr>)
       (\<lambda>userId w summary message.
          \<lparr>sb_goals = Some (getAISuggestedGoals userId w),
           sb_habits = Some (getAISuggestedHabits userId w),
           sb_summary = summary, sb_message = message\<rparr>)
       ''Failed to generate AI suggestions. Please try again later.''"

text \<open>
  GET /api/habits/:userId/suggestions, as \<open>routes.ts\<close> registers it. (\<open>setupHabitRoutes\<close>,
  whose module is not among the source files, is mounted before it.)
\<close>

definition habitSuggestions :: "pipeline \<Rightarrow> Env \<Rightarrow> session \<Rightarrow> nat \<Rightarrow> World
                                 \<Rightarrow> SuggestionsBody response \<times> World" where
  "habitSuggestions =
     suggestionsHandler
       (\<lambda>userId w summary message.
          \<lparr>sb_goals = None, sb_habits = Some (getAISuggestedHabits userId w),
           sb_summary = summary, sb_message = message\<rparr>)
       (\<lambda>userId w summary message.
          \<lparr>sb_goals = None, sb_habits = Some (getAISuggestedHabits userId w),
           sb_summary = summary, sb_message = message\<rparr>)
       ''Failed to generate habit suggestions. Please try again later.''"

text \<open>
  GET /api/tasks/:userId/suggestions. \<open>registerRoutes\<close> calls \<open>setupTaskRoutes\<close> first,
  which mounts the router of \<open>server/routes/tasks.ts\<close> (the second module in the file
  \<open>server/scripts/bin/process-all-journal-entries\<close>) at \<open>/api/tasks\<close>; its route
  \<open>/:userId/suggestions\<close> answers this path and always ends the request, so the
  handler that \<open>routes.ts\<close> registers for the same path later is never reached and is
  not modelled. The router's route takes the ten most recent entries of the user, keeps
  the journal entries among them, whatever their flag \<open>analyzed\<close>, and hands them with
  the user's tasks and goals to \<open>generateTaskSuggestions\<close>; with no journal entry among
  them the answer is the empty list, and a generator that throws ends in 500. The body
  of the answer is the list of titles suggested.
\<close>

definition tasksRouterSuggestions :: "Env \<Rightarrow> session \<Rightarrow> nat \<Rightarrow> World
                                        \<Rightarrow> string list response \<times> World" where
  "tasksRouterSuggestions env req_user userId w =
     (case req_user of
        None \<Rightarrow> (SendStatus 401, w)
      | Some u \<Rightarrow>
          if user_id u \<noteq> userId then (SendStatus 403, w)
          else
            let journalEntries = getRecentJournalEntriesByUserId userId 10 w;
                filteredEntries = filter je_isJournal journalEntries
            in if length filteredEntries = 0 then (Json 200 [], w)
               else
                 let formattedTasks = map (\<lambda>t. (t_title t, t_completed t))
                                        (getTasksByUserId userId w);
                     formattedGoals = map (\<lambda>g. (g_name g, g_progress g))
                                        (getGoalsByUserId userId w);
                     formattedEntries = map (\<lambda>e. (je_content e, je_date e)) filteredEntries;
                     w' = logCall (GenerateTaskSuggestions formattedEntries) w
                 in case generateTaskSuggestions env formattedEntries formattedTasks
                           formattedGoals of
                      Some suggestions \<Rightarrow> (Json 200 suggestions, w')
                    | None \<Rightarrow> (JsonError 500 ''Failed to generate task suggestions'', w'))"

text \<open>
  POST /api/suggestions/process-user/:userId: the user or an administrator; the run is
  called with the user id alone, no limit is passed.
\<close>

definition processUser :: "pipeline \<Rightarrow> session \<Rightarrow> nat \<Rightarrow> World \<Rightarrow> RunSummary response \<times> World" where
  "processUser run req_user userId w =
     (case req_user of
        None \<Rightarrow> (SendStatus 401, w)
      | Some u \<Rightarrow>
          if user_id u \<noteq> userId \<and> \<not> user_isAdmin u then (SendStatus 403, w)
          else (case run userId None w of
                  (Inr result, w') \<Rightarrow> (Json 200 result, w')
                | (Inl err, w') \<Rightarrow> (JsonError 500 ''Failed to process journal entries'', w')))"

text \<open>
  POST /api/admin/process-all-journal-entries: administrators only; \<open>processAllEntries\<close>
  is started and not awaited.
\<close>

definition processAllJournalEntries :: "session \<Rightarrow> World \<Rightarrow> unit response \<times> World" where
  "processAllJournalEntries req_user w =
     (case req_user of
        None \<Rightarrow> (SendStatus 403, w)
      | Some u \<Rightarrow>
          if \<not> user_isAdmin u then (SendStatus 403, w)
          else (Json 200 (), logCall ProcessAllEntries w))"

subsection \<open>Accepting and rejecting suggestions\<close>

text \<open>
  POST /api/ai-goals/:id/accept, /api/ai-tasks/:id/accept and /api/ai-habits/:id/accept
  share one shape: 401 without a session; the suggestion is fetched, 404 when there is
  none; 403 when its \<open>userId\<close> is not the session user's id; then the storage promotes
  it and the durable record is the answer (500 when the promotion throws).
\<close>

definition acceptHandler :: "(nat \<Rightarrow> World \<Rightarrow> 's option) \<Rightarrow> ('s \<Rightarrow> nat)
                              \<Rightarrow> (nat \<Rightarrow> World \<Rightarrow> ('d \<times> World) option)
                              \<Rightarrow> string \<Rightarrow> string \<Rightarrow> string
                              \<Rightarrow> session \<Rightarrow> nat \<Rightarrow> World \<Rightarrow> 'd response \<times> World" where
  "acceptHandler getById ownerOf accept notFound forbidden failed req_user i w =
     (case req_user of
        None \<Rightarrow> (SendStatus 401, w)
      | Some u \<Rightarrow>
          (case getById i w of
             None \<Rightarrow> (JsonError 404 notFound, w)
           | Some suggestion \<Rightarrow>
               if user_id u \<noteq> ownerOf suggestion then (JsonError 403 forbidden, w)
               else (case accept i w of
                       Some (record, w') \<Rightarrow> (Json 200 record, w')
                     | None \<Rightarrow> (JsonError 500 failed, w))))"

definition postAiGoalAccept :: "session \<Rightarrow> nat \<Rightarrow> World \<Rightarrow> GoalRow response \<times> World" where
  "postAiGoalAccept =
     acceptHandler getAiGoalById aig_userId acceptAiGoal ''AI suggested goal not found''
       ''You don't have permission to accept this goal'' ''Failed to accept AI suggested goal''"

definition postAiTaskAccept :: "session \<Rightarrow> nat \<Rightarrow> World \<Rightarrow> TaskRow response \<times> World" where
  "postAiTaskAccept =
     acceptHandler getAiTaskById ait_userId acceptAiTask ''AI suggested task not found''
       ''You don't have permission to accept this task'' ''Failed to accept AI suggested task''"

definition postAiHabitAccept :: "session \<Rightarrow> nat \<Rightarrow> World \<Rightarrow> HabitRow response \<times> World" where
  "postAiHabitAccept =
     acceptHandler getAiHabitById aih_userId acceptAiHabit ''AI suggested habit not found''
       ''You don't have permission to accept this habit'' ''Failed to accept AI suggested habit''"

text \<open>
  DELETE /api/ai-goals/:id, /api/ai-tasks/:id and /api/ai-habits/:id: the same checks,
  with a bare 403; then the suggestion row is deleted and the answer is 204.
\<close>

definition rejectHandler :: "(nat \<Rightarrow> World \<Rightarrow> 's option) \<Rightarrow> ('s \<Rightarrow> nat) \<Rightarrow> (nat \<Rightarrow> World \<Rightarrow> World)
                              \<Rightarrow> string \<Rightarrow> session \<Rightarrow> nat \<Rightarrow> World \<Rightarrow> unit response \<times> World" where
  "rejectHandler getById ownerOf delete notFound req_user i w =
     (case req_user of
        None \<Rightarrow> (SendStatus 401, w)
      | Some u \<Rightarrow>
          (case getById i w of
             None \<Rightarrow> (JsonError 404 notFound, w)
           | Some suggestion \<Rightarrow>
               if user_id u \<noteq> ownerOf suggestion then (SendStatus 403, w)
               else (SendStatus 204, delete i w)))"

definition deleteAiGoalHandler :: "session \<Rightarrow> nat \<Rightarrow> World \<Rightarrow> unit response \<times> World" where
  "deleteAiGoalHandler =
     rejectHandler getAiGoalById aig_userId deleteAiGoal ''AI suggested goal not found''"

definition deleteAiTaskHandler :: "session \<Rightarrow> nat \<Rightarrow> World \<Rightarrow> unit response \<times> World" where
  "deleteAiTaskHandler =
     rejectHandler getAiTaskById ait_userId deleteAiTask ''AI suggested task not found''"

definition deleteAiHabitHandler :: "session \<Rightarrow> nat \<Rightarrow> World \<Rightarrow> unit response \<times> World" where
  "deleteAiHabitHandler =
     rejectHandler getAiHabitById aih_userId deleteAiHabit ''AI suggested habit not found''"

text \<open>
  The lifecycle surface by kind of suggestion: \<open>accept\<close> and \<open>reject\<close> choose the handler
  of the kind; \<open>DurableRecord\<close> is the record an accept answers with.
\<close>

datatype kind = GoalKind | TaskKind | HabitKind

datatype DurableRecord = DurableGoal GoalRow | DurableTask TaskRow | DurableHabit HabitRow

fun mapBody :: "('a \<Rightarrow> 'b) \<Rightarrow> 'a response \<Rightarrow> 'b response" where
  "mapBody f (SendStatus n) = SendStatus n"
| "mapBody f (Json n b) = Json n (f b)"
| "mapBody f (JsonError n m) = JsonError n m"

fun accept :: "kind \<Rightarrow> session \<Rightarrow> nat \<Rightarrow> World \<Rightarrow> DurableRecord response \<times> World" where
  "accept GoalKind req_user i w = apfst (mapBody DurableGoal) (postAiGoalAccept req_user i w)"
| "accept TaskKind req_user i w = apfst (mapBody DurableTask) (postAiTaskAccept req_user i w)"
| "accept HabitKind req_user i w = apfst (mapBody DurableHabit) (postAiHabitAccept req_user i w)"

fun reject :: "kind \<Rightarrow> session \<Rightarrow> nat \<Rightarrow> World \<Rightarrow> unit response \<times> World" where
  "reject GoalKind req_user i w = deleteAiGoalHandler req_user i w"
| "reject TaskKind req_user i w = deleteAiTaskHandler req_user i w"
| "reject HabitKind req_user i w = deleteAiHabitHandler req_user i w"

text \<open>The owner of the suggestion of a kind with a given id, when there is one.\<close>

fun suggestionOwner :: "kind \<Rightarrow> nat \<Rightarrow> World \<Rightarrow> nat option" where
  "suggestionOwner GoalKind i w = map_option aig_userId (getAiGoalById i w)"
| "suggestionOwner TaskKind i w = map_option ait_userId (getAiTaskById i w)"
| "suggestionOwner HabitKind i w = map_option aih_userId (getAiHabitById i w)"

section \<open>Requests over time\<close>

text \<open>
  The requests that write journal entries, suggestions or durable records, and the
  detached run of the pipeline that \<open>processSingleEntry\<close> or \<open>processAllEntries\<close> stands
  for when it executes, with whatever limit it takes. \<open>serve\<close> gives the state a request
  leaves; the run behind the suggestion endpoints and the manual trigger is
  \<open>processAllEntriesForUser\<close>.
\<close>

datatype Request =
    PostJournalEntries session JournalBody
  | SaveChat session ChatBody
  | DeleteJournalEntry session nat
  | RestoreJournalEntry session nat
  | PermanentlyDeleteJournalEntry session nat
  | GenerateSuggestions session nat
  | TaskSuggestions session nat
  | HabitSuggestions session nat
  | ProcessUser session nat
  | ProcessAllJournalEntries session
  | Accept kind session nat
  | Reject kind session nat
  | BackgroundRun nat nat

fun serve :: "Env \<Rightarrow> Request \<Rightarrow> World \<Rightarrow> World" where
  "serve env (PostJournalEntries req_user body) w = snd (postJournalEntries env req_user body w)"
| "serve env (SaveChat req_user body) w = snd (saveChat env req_user body w)"
| "serve env (DeleteJournalEntry req_user i) w = snd (deleteJournalEntryHandler req_user i w)"
| "serve env (RestoreJournalEntry req_user i) w = snd (restoreJournalEntryHandler req_user i w)"
| "serve env (PermanentlyDeleteJournalEntry req_user i) w =
     snd (permanentDeleteHandler req_user i w)"
| "serve env (GenerateSuggestions req_user userId) w =
     snd (generateSuggestions (processAllEntriesForUser env) env req_user userId w)"
| "serve env (TaskSuggestions req_user userId) w =
     snd (tasksRouterSuggestions env req_user userId w)"
| "serve env (HabitSuggestions req_user userId) w =
     snd (habitSuggestions (processAllEntriesForUser env) env req_user userId w)"
| "serve env (ProcessUser req_user userId) w =
     snd (processUser (processAllEntriesForUser env) req_user userId w)"
| "serve env (ProcessAllJournalEntries req_user) w = snd (processAllJournalEntries req_user w)"
| "serve env (Accept k req_user i) w = snd (accept k req_user i w)"
| "serve env (Reject k req_user i) w = snd (reject k req_user i w)"
| "serve env (BackgroundRun userId limit) w = snd (runForUser env userId limit w)"

text \<open>
  The states a sequence of requests goes through, each served with the collaborators of
  its moment.
\<close>

fun trace :: "(Env \<times> Request) list \<Rightarrow> World \<Rightarrow> World list" where
  "trace [] w = []"
| "trace ((env, r) # rs) w = serve env r w # trace rs (serve env r w)"

text \<open>The analyzed flag of the entry with a given id, when there is such an entry.\<close>

definition analyzedFlag :: "nat \<Rightarrow> World \<Rightarrow> bool option" where
  "analyzedFlag i w = map_option je_analyzed (getJournalEntryById i w)"

text \<open>
  How often, along a list of states, the flag of an entry goes from false to true between
  one state and the next, and how often from true to false.
\<close>

definition risings :: "nat \<Rightarrow> World list \<Rightarrow> nat" where
  "risings i ws =
     length (filter (\<lambda>p. analyzedFlag i (fst p) = Some False \<and> analyzedFlag i (snd p) = Some True)
               (zip ws (tl ws)))"

definition reverts :: "nat \<Rightarrow> World list \<Rightarrow> nat" where
  "reverts i ws =
     length (filter (\<lambda>p. analyzedFlag i (fst p) = Some True \<and> analyzedFlag i (snd p) = Some False)
               (zip ws (tl ws)))"

text \<open>Every journal entry carries an id that the counter has already passed.\<close>

definition idsIssued :: "World \<Rightarrow> bool" where
  "idsIssued w = list_all (\<lambda>e. je_id e < nextId w) (journalEntries w)"

text \<open>
  The stage of an id in the life of a journal entry: 0 not yet issued, 1 stored and
  unanalyzed, 2 stored and analyzed, 3 issued and no longer stored.
\<close>

definition entryStage :: "nat \<Rightarrow> World \<Rightarrow> nat" where
  "entryStage i w =
     (case getJournalEntryById i w of
        None \<Rightarrow> if i < nextId w then 3 else 0
      | Some e \<Rightarrow> if je_analyzed e then 2 else 1)"

text \<open>A later state of a well-numbered state: still well numbered, no stage has gone back.\<close>

definition advances :: "World \<Rightarrow> World \<Rightarrow> bool" where
  "advances w w' =
     (idsIssued w \<longrightarrow> idsIssued w' \<and> nextId w \<le> nextId w' \<and>
        (\<forall>i. entryStage i w \<le> entryStage i w'))"

section \<open>Sample states\<close>

text \<open>Concrete users, collaborators and states on which the results below are run.\<close>

definition alice :: User where
  "alice = \<lparr>user_id = 1, user_isAdmin = False\<rparr>"

definition bob :: User where
  "bob = \<lparr>user_id = 2, user_isAdmin = False\<rparr>"

definition emptyWorld :: World where
  "emptyWorld = \<lparr>journalEntries = [], goals = [], tasks = [], habits = [], aiGoals = [],
                  aiTasks = [], aiHabits = [], nextId = 1, calls = []\<rparr>"

text \<open>Collaborators whose title and sentiment calls throw and whose extraction finds nothing.\<close>

definition silentEnv :: Env where
  "silentEnv = \<lparr>generateJournalTitle = (\<lambda>_. None), analyzeSentiment = (\<lambda>_. None),
                 storeEmbedding = (\<lambda>_ _. True),
                 extractSuggestions =
                   (\<lambda>_ _ _. Inr \<lparr>er_goals = [], er_tasks = [], er_habits = []\<rparr>),
                 generateTaskSuggestions = (\<lambda>_ _ _. Some []),
                 missingLimit = 3, now = 1000, openaiApiKey = True\<rparr>"


text \<open>A state in which Alice owns one suggestion of each kind, all with id 7.\<close>

definition suggestionWorld :: World where
  "suggestionWorld = emptyWorld
     \<lparr>aiGoals := [\<lparr>aig_id = 7, aig_userId = 1, aig_name = ''Sleep earlier'',
                    aig_description = None, aig_category = None, aig_source = ''AI''\<rparr>],
      aiTasks := [\<lparr>ait_id = 7, ait_userId = 1, ait_title = ''Call the dentist'',
                    ait_description = None, ait_parentGoalId = None, ait_source = ''AI''\<rparr>],
      aiHabits := [\<lparr>aih_id = 7, aih_userId = 1, aih_title = ''Stretch'',
                     aih_description = None, aih_frequency = ''daily'', aih_source = ''AI''\<rparr>],
      nextId := 8\<rparr>"

text \<open>
  A state in which Alice has one journal entry, already analyzed, and one chat turn that
  is not a journal entry.
\<close>

definition analyzedWorld :: World where
  "analyzedWorld = emptyWorld
     \<lparr>journalEntries :=
        [\<lparr>je_id = 1, je_userId = 1, je_content = ''A quiet day.'', je_title = ''Quiet'',
          je_date = 100, je_isAiResponse = False, je_isJournal = True, je_transcript = None,
          je_analyzed = True, je_sentiment = None, je_deleted = False\<rparr>,
         \<lparr>je_id = 2, je_userId = 1, je_content = ''hello'', je_title = [],
          je_date = 200, je_isAiResponse = False, je_isJournal = False, je_transcript = None,
          je_analyzed = False, je_sentiment = None, je_deleted = False\<rparr>],
      nextId := 3\<rparr>"

text \<open>
  The scenario of the specification: Alice has the durable goal "Read more books" and one
  unanalyzed entry, and the extraction yields the candidate goal "read more books daily".
\<close>

definition readingWorld :: World where
  "readingWorld = emptyWorld
     \<lparr>journalEntries :=
        [\<lparr>je_id = 2, je_userId = 1, je_content = ''I want to read more books every day.'',
          je_title = ''Reading'', je_date = 500, je_isAiResponse = False, je_isJournal = True,
          je_transcript = None, je_analyzed = False, je_sentiment = None,
          je_deleted = False\<rparr>],
      goals := [\<lparr>g_id = 1, g_userId = 1, g_name = ''Read more books'', g_description = None,
                  g_category = None, g_target = 100, g_progress = 0, g_unit = ''%'',
                  g_colorScheme = 1, g_status = ''in_progress''\<rparr>],
      nextId := 3\<rparr>"

definition readingGoal :: CandidateGoal where
  "readingGoal = \<lparr>cg_name = ''read more books daily'', cg_description = ''Read every day'',
                   cg_category = ''Learning''\<rparr>"

definition readingEnv :: Env where
  "readingEnv = silentEnv
     \<lparr>extractSuggestions :=
        (\<lambda>_ _ _. Inr \<lparr>er_goals = [readingGoal], er_tasks = [], er_habits = []\<rparr>)\<rparr>"

text \<open>The same pair on the goals page, and a pair that differs in its last character only.\<close>

definition readMoreBooks :: Goal where
  "readMoreBooks = \<lparr>goal_id = 1, goal_name = ''Read more books'', goal_description = None,
                     goal_category = ''Personal''\<rparr>"

definition readDaily :: AiSuggestedGoal where
  "readDaily = \<lparr>ai_id = ''ai-goal-0'', ai_name = ''read more books daily'',
                 ai_description = ''Read every day'', ai_category = ''Learning'',
                 ai_source = ''Based on your journal entries''\<rparr>"

definition runGoal :: Goal where
  "runGoal = \<lparr>goal_id = 2, goal_name = ''run 5k.'', goal_description = None,
               goal_category = ''Health''\<rparr>"

definition runSuggestion :: AiSuggestedGoal where
  "runSuggestion = \<lparr>ai_id = ''ai-goal-1'', ai_name = ''Run 5k!'',
                     ai_description = ''Train for a race'', ai_category = ''Health'',
                     ai_source = ''Based on your journal entries''\<rparr>"

text \<open>A request of Alice to save an entry of 101 characters.\<close>

definition longEntry :: JournalBody where
  "longEntry = \<lparr>jb_content = Some (replicate 101 CHR ''a''), jb_userId = Some 1,
                 jb_transcript = None, jb_date = None\<rparr>"






text \<open>
  Alice has the durable goal "Call mom", one unanalyzed entry, and an extraction that
  yields the candidate goal "call mom every sunday".
\<close>

definition callingWorld :: World where
  "callingWorld = readingWorld
     \<lparr>goals := [\<lparr>g_id = 1, g_userId = 1, g_name = ''Call mom'', g_description = None,
                  g_category = None, g_target = 100, g_progress = 0, g_unit = ''%'',
                  g_colorScheme = 1, g_status = ''in_progress''\<rparr>]\<rparr>"

definition callingGoal :: CandidateGoal where
  "callingGoal = \<lparr>cg_name = ''call mom every sunday'', cg_description = ''Stay in touch'',
                   cg_category = ''Relationships''\<rparr>"

definition callingEnv :: Env where
  "callingEnv = silentEnv
     \<lparr>extractSuggestions :=
        (\<lambda>_ _ _. Inr \<lparr>er_goals = [callingGoal], er_tasks = [], er_habits = []\<rparr>)\<rparr>"

section \<open>Facts about the string operations\<close>

lemma startsWith_iff: "startsWith s t \<longleftrightarrow> (\<exists>q. s = t @ q)"
  by (induction s t rule: startsWith.induct) auto

lemma includesStr_iff: "includesStr s t \<longleftrightarrow> (\<exists>p q. s = p @ t @ q)"
proof (induction s)
  case Nil
  show ?case by (cases t) auto
next
  case (Cons d s)
  show ?case
  proof
    assume "includesStr (d # s) t"
    then consider "startsWith (d # s) t" | "includesStr s t" by auto
    then show "\<exists>p q. d # s = p @ t @ q"
    proof cases
      case 1
      then obtain q where "d # s = t @ q" by (auto simp: startsWith_iff)
      then have "d # s = [] @ t @ q" by simp
      then show ?thesis by blast
    next
      case 2
      with Cons obtain p q where "s = p @ t @ q" by blast
      then have "d # s = (d # p) @ t @ q" by simp
      then show ?thesis by blast
    qed
  next
    assume "\<exists>p q. d # s = p @ t @ q"
    then obtain p q where pq: "d # s = p @ t @ q" by blast
    show "includesStr (d # s) t"
    proof (cases p)
      case Nil
      with pq have "startsWith (d # s) t" by (auto simp: startsWith_iff)
      then show ?thesis by simp
    next
      case (Cons e p')
      with pq have "s = p' @ t @ q" by simp
      with Cons.IH have "includesStr s t" by blast
      then show ?thesis by simp
    qed
  qed
qed

lemma toLowerCase_char_idem: "toLowerCase_char (toLowerCase_char c) = toLowerCase_char c"
proof -
  have "of_char (char_of (of_char c + 32 :: nat)) = (of_char c + 32 :: nat)"
    if "of_char c \<le> (222 :: nat)"
    using that by (simp add: of_char_of)
  then show ?thesis
    by (auto simp: toLowerCase_char_def Let_def)
qed

lemma toLowerCase_idem: "toLowerCase (toLowerCase s) = toLowerCase s"
  by (simp add: toLowerCase_def toLowerCase_char_idem)

lemma toLowerCase_length: "length (toLowerCase s) = length s"
  by (simp add: toLowerCase_def)

section \<open>The category heuristic\<close>

text \<open>
  C9. \<open>getGoalCategory\<close> is a total function of the name alone, fixed by a keyword table
  read in order: a lower-cased name containing "read", "learn" or "study" is Learning,
  whatever else it contains; otherwise "exercise", "workout", "run" or "meditate" give
  Health; then "save", "budget", "invest" give Financial; then "family", "friend",
  "relationship" give Relationships; then "job", "career", "work" give Career; every
  other name is Personal. Containment is stated outright: the keyword sits between some
  prefix and some suffix of the lower-cased name.
\<close>

theorem getGoalCategory_keyword_table:
  "getGoalCategory goalName =
     (let has = (\<lambda>k. \<exists>p q. toLowerCase goalName = p @ k @ q) in
      if has ''read'' \<or> has ''learn'' \<or> has ''study'' then ''Learning''
      else if has ''exercise'' \<or> has ''workout'' \<or> has ''run'' \<or> has ''meditate''
        then ''Health''
      else if has ''save'' \<or> has ''budget'' \<or> has ''invest'' then ''Financial''
      else if has ''family'' \<or> has ''friend'' \<or> has ''relationship'' then ''Relationships''
      else if has ''job'' \<or> has ''career'' \<or> has ''work'' then ''Career''
      else ''Personal'')"
  by (simp add: getGoalCategory_def includesStr_iff Let_def)

section \<open>Content validation of a new journal entry\<close>

lemma dropWhile_all_iff: "(\<forall>x\<in>set (dropWhile P xs). P x) \<longleftrightarrow> (\<forall>x\<in>set xs. P x)"
  by (induction xs) auto

lemma trim_Nil_iff: "trim s = [] \<longleftrightarrow> (\<forall>c\<in>set s. isWhiteSpace c)"
  by (simp add: trim_def dropWhile_eq_Nil_conv dropWhile_all_iff)

text \<open>
  C10. A request to POST /api/journal-entries whose content is absent, empty or made of
  white space only leaves the state as it was: no journal entry is created and no call
  is made, so no title or sentiment analysis runs and no suggestion processing is
  started. The answer is an error: 400 with "Content is required for journal entries"
  when the session's user is the user named in the body, and 401 or 403 from the checks
  that come first otherwise.
\<close>

theorem blank_content_rejected:
  assumes "case jb_content body of None \<Rightarrow> True | Some s \<Rightarrow> \<forall>c\<in>set s. isWhiteSpace c"
  shows "snd (postJournalEntries env req_user body w) = w \<and>
         statusCode (fst (postJournalEntries env req_user body w)) \<in> {400, 401, 403} \<and>
         (req_user = Some u \<and> jb_userId body = Some (user_id u) \<longrightarrow>
            fst (postJournalEntries env req_user body w)
              = JsonError 400 ''Content is required for journal entries'')"
  using assms
  by (auto simp: postJournalEntries_def trim_Nil_iff split: option.splits)

theorem blank_content_rejected_witness:
  "postJournalEntries silentEnv (Some alice)
     \<lparr>jb_content = Some ''   '', jb_userId = Some 1, jb_transcript = None, jb_date = None\<rparr>
     emptyWorld
   = (JsonError 400 ''Content is required for journal entries'', emptyWorld)"
proof -
  let ?b = "\<lparr>jb_content = Some ''   '', jb_userId = Some 1, jb_transcript = None,
             jb_date = None\<rparr>"
  have blank: "case jb_content ?b of None \<Rightarrow> True | Some s \<Rightarrow> \<forall>c\<in>set s. isWhiteSpace c"
    by (simp add: isWhiteSpace_def)
  have owner: "jb_userId ?b = Some (user_id alice)"
    by (simp add: alice_def)
  from blank_content_rejected[OF blank, of silentEnv "Some alice" emptyWorld alice] owner
  show ?thesis by (simp add: prod_eq_iff)
qed

section \<open>Accepting and rejecting: who may, and what a refusal leaves\<close>

lemma acceptHandler_refusals:
  assumes "getById i w \<noteq> None \<longrightarrow> acc i w \<noteq> None"
  shows "statusCode (fst (acceptHandler getById ownerOf acc nf fb fl (Some u) i w)) = 404
           \<longleftrightarrow> map_option ownerOf (getById i w) = None"
    and "statusCode (fst (acceptHandler getById ownerOf acc nf fb fl (Some u) i w)) = 403
           \<longleftrightarrow> (\<exists>ow. map_option ownerOf (getById i w) = Some ow \<and> ow \<noteq> user_id u)"
    and "statusCode (fst (acceptHandler getById ownerOf acc nf fb fl (Some u) i w)) \<in> {403, 404}
           \<longrightarrow> snd (acceptHandler getById ownerOf acc nf fb fl (Some u) i w) = w"
  using assms
  by (auto simp: acceptHandler_def split: option.splits)

lemma rejectHandler_refusals:
  shows "statusCode (fst (rejectHandler getById ownerOf del nf (Some u) i w)) = 404
           \<longleftrightarrow> map_option ownerOf (getById i w) = None"
    and "statusCode (fst (rejectHandler getById ownerOf del nf (Some u) i w)) = 403
           \<longleftrightarrow> (\<exists>ow. map_option ownerOf (getById i w) = Some ow \<and> ow \<noteq> user_id u)"
    and "statusCode (fst (rejectHandler getById ownerOf del nf (Some u) i w)) \<in> {403, 404}
           \<longrightarrow> snd (rejectHandler getById ownerOf del nf (Some u) i w) = w"
  by (auto simp: rejectHandler_def split: option.splits)

lemma statusCode_mapBody: "statusCode (mapBody f r) = statusCode r"
  by (cases r) auto

lemma accept_refusals:
  shows "statusCode (fst (accept k (Some u) i w)) = 404 \<longleftrightarrow> suggestionOwner k i w = None"
    and "statusCode (fst (accept k (Some u) i w)) = 403
           \<longleftrightarrow> (\<exists>ow. suggestionOwner k i w = Some ow \<and> ow \<noteq> user_id u)"
    and "statusCode (fst (accept k (Some u) i w)) \<in> {403, 404}
           \<longrightarrow> snd (accept k (Some u) i w) = w"
proof -
  have g: "getAiGoalById i w \<noteq> None \<longrightarrow> acceptAiGoal i w \<noteq> None"
    by (auto simp: acceptAiGoal_def Let_def)
  have t: "getAiTaskById i w \<noteq> None \<longrightarrow> acceptAiTask i w \<noteq> None"
    by (auto simp: acceptAiTask_def Let_def)
  have h: "getAiHabitById i w \<noteq> None \<longrightarrow> acceptAiHabit i w \<noteq> None"
    by (auto simp: acceptAiHabit_def Let_def)
  note goal = acceptHandler_refusals[where getById = getAiGoalById and acc = acceptAiGoal
      and i = i and w = w, OF g]
  note task = acceptHandler_refusals[where getById = getAiTaskById and acc = acceptAiTask
      and i = i and w = w, OF t]
  note habit = acceptHandler_refusals[where getById = getAiHabitById and acc = acceptAiHabit
      and i = i and w = w, OF h]
  show "statusCode (fst (accept k (Some u) i w)) = 404 \<longleftrightarrow> suggestionOwner k i w = None"
    by (cases k)
       (simp_all add: statusCode_mapBody postAiGoalAccept_def postAiTaskAccept_def
          postAiHabitAccept_def goal(1) task(1) habit(1))
  show "statusCode (fst (accept k (Some u) i w)) = 403
          \<longleftrightarrow> (\<exists>ow. suggestionOwner k i w = Some ow \<and> ow \<noteq> user_id u)"
    by (cases k)
       (simp_all add: statusCode_mapBody postAiGoalAccept_def postAiTaskAccept_def
          postAiHabitAccept_def goal(2) task(2) habit(2))
  show "statusCode (fst (accept k (Some u) i w)) \<in> {403, 404}
          \<longrightarrow> snd (accept k (Some u) i w) = w"
    using goal(3) task(3) habit(3)
    by (cases k)
       (simp_all add: statusCode_mapBody postAiGoalAccept_def postAiTaskAccept_def
          postAiHabitAccept_def)
qed

lemma reject_refusals:
  shows "statusCode (fst (reject k (Some u) i w)) = 404 \<longleftrightarrow> suggestionOwner k i w = None"
    and "statusCode (fst (reject k (Some u) i w)) = 403
           \<longleftrightarrow> (\<exists>ow. suggestionOwner k i w = Some ow \<and> ow \<noteq> user_id u)"
    and "statusCode (fst (reject k (Some u) i w)) \<in> {403, 404}
           \<longrightarrow> snd (reject k (Some u) i w) = w"
  by (cases k; simp add: deleteAiGoalHandler_def deleteAiTaskHandler_def
        deleteAiHabitHandler_def rejectHandler_refusals)+

text \<open>
  C4. For every kind of suggestion, every id and every requesting user (the user of the
  session), accept and reject answer 404 exactly when no suggestion with that id exists,
  and 403 exactly when one exists and its \<open>userId\<close> is not the requesting user's id; in
  both cases the state after the request is the state before it, so no record is
  created, deleted or modified.
\<close>

theorem lifecycle_refusals:
  "(statusCode (fst (accept k (Some u) i w)) = 404 \<longleftrightarrow> suggestionOwner k i w = None) \<and>
   (statusCode (fst (reject k (Some u) i w)) = 404 \<longleftrightarrow> suggestionOwner k i w = None) \<and>
   (statusCode (fst (accept k (Some u) i w)) = 403
      \<longleftrightarrow> (\<exists>ow. suggestionOwner k i w = Some ow \<and> ow \<noteq> user_id u)) \<and>
   (statusCode (fst (reject k (Some u) i w)) = 403
      \<longleftrightarrow> (\<exists>ow. suggestionOwner k i w = Some ow \<and> ow \<noteq> user_id u)) \<and>
   (statusCode (fst (accept k (Some u) i w)) \<in> {403, 404} \<longrightarrow> snd (accept k (Some u) i w) = w) \<and>
   (statusCode (fst (reject k (Some u) i w)) \<in> {403, 404} \<longrightarrow> snd (reject k (Some u) i w) = w)"
  using accept_refusals[of k u i w] reject_refusals[of k u i w] by blast

theorem lifecycle_refusals_witness:
  "statusCode (fst (accept GoalKind (Some bob) 7 suggestionWorld)) = 403 \<and>
   snd (accept GoalKind (Some bob) 7 suggestionWorld) = suggestionWorld \<and>
   statusCode (fst (reject GoalKind (Some bob) 7 suggestionWorld)) = 403 \<and>
   snd (reject GoalKind (Some bob) 7 suggestionWorld) = suggestionWorld \<and>
   statusCode (fst (accept GoalKind (Some bob) 9 suggestionWorld)) = 404 \<and>
   snd (accept GoalKind (Some bob) 9 suggestionWorld) = suggestionWorld"
proof -
  have owner: "suggestionOwner GoalKind 7 suggestionWorld = Some 1"
    by (simp add: suggestionWorld_def emptyWorld_def getAiGoalById_def)
  have nobody: "suggestionOwner GoalKind 9 suggestionWorld = None"
    by (simp add: suggestionWorld_def emptyWorld_def getAiGoalById_def)
  have other: "user_id bob = 2"
    by (simp add: bob_def)
  have foreign: "\<exists>ow. suggestionOwner GoalKind 7 suggestionWorld = Some ow \<and> ow \<noteq> user_id bob"
  proof (intro exI conjI)
    show "suggestionOwner GoalKind 7 suggestionWorld = Some 1" by (rule owner)
    show "1 \<noteq> user_id bob" by (simp only: other)
  qed
  note at7 = lifecycle_refusals[of GoalKind bob 7 suggestionWorld]
  note at9 = lifecycle_refusals[of GoalKind bob 9 suggestionWorld]
  have a: "statusCode (fst (accept GoalKind (Some bob) 7 suggestionWorld)) = 403"
    using at7 foreign by blast
  have r: "statusCode (fst (reject GoalKind (Some bob) 7 suggestionWorld)) = 403"
    using at7 foreign by blast
  have n: "statusCode (fst (accept GoalKind (Some bob) 9 suggestionWorld)) = 404"
    using at9 nobody by blast
  have "snd (accept GoalKind (Some bob) 7 suggestionWorld) = suggestionWorld"
    using at7 a by blast
  moreover have "snd (reject GoalKind (Some bob) 7 suggestionWorld) = suggestionWorld"
    using at7 r by blast
  moreover have "snd (accept GoalKind (Some bob) 9 suggestionWorld) = suggestionWorld"
    using at9 n by blast
  ultimately show ?thesis
    using a r n by blast
qed

section \<open>Rejecting an owned suggestion\<close>

lemma rejectHandler_owned:
  assumes "map_option ownerOf (getById i w) = Some (user_id u)"
  shows "rejectHandler getById ownerOf del nf (Some u) i w = (SendStatus 204, del i w)"
  using assms by (auto simp: rejectHandler_def split: option.splits)

text \<open>
  C5. Rejecting a suggestion that the requesting user owns answers 204 and leaves the
  state that differs from the one before only in the suggestion table of that kind, from
  which the rows with that id are gone. The durable goals, tasks and habits, the two
  other suggestion tables, the journal entries and the calls made are as before: no
  durable record is created.
\<close>

theorem reject_deletes_only_the_suggestion:
  assumes "suggestionOwner k i w = Some (user_id u)"
  shows "reject k (Some u) i w =
           (SendStatus 204,
            case k of
              GoalKind \<Rightarrow> w\<lparr>aiGoals := filter (\<lambda>g. aig_id g \<noteq> i) (aiGoals w)\<rparr>
            | TaskKind \<Rightarrow> w\<lparr>aiTasks := filter (\<lambda>t. ait_id t \<noteq> i) (aiTasks w)\<rparr>
            | HabitKind \<Rightarrow> w\<lparr>aiHabits := filter (\<lambda>h. aih_id h \<noteq> i) (aiHabits w)\<rparr>) \<and>
         goals (snd (reject k (Some u) i w)) = goals w \<and>
         tasks (snd (reject k (Some u) i w)) = tasks w \<and>
         habits (snd (reject k (Some u) i w)) = habits w"
  using assms
  by (cases k)
     (simp_all add: deleteAiGoalHandler_def deleteAiTaskHandler_def deleteAiHabitHandler_def
        rejectHandler_owned deleteAiGoal_def deleteAiTask_def deleteAiHabit_def)

theorem reject_deletes_only_the_suggestion_witness:
  "reject HabitKind (Some alice) 7 suggestionWorld
     = (SendStatus 204, suggestionWorld\<lparr>aiHabits := []\<rparr>) \<and>
   goals (snd (reject HabitKind (Some alice) 7 suggestionWorld)) = [] \<and>
   length (aiGoals (snd (reject HabitKind (Some alice) 7 suggestionWorld))) = 1"
proof -
  have owner: "suggestionOwner HabitKind 7 suggestionWorld = Some (user_id alice)"
    by (simp add: suggestionWorld_def emptyWorld_def getAiHabitById_def alice_def)
  from reject_deletes_only_the_suggestion[OF owner]
  show ?thesis by (simp add: suggestionWorld_def emptyWorld_def)
qed

section \<open>Duplicates by substring\<close>

subsection \<open>What the normalizer keeps\<close>

text \<open>
  Dropping a run of characters from the end of a text leaves everything up to the last
  character outside the run; \<open>trim\<close> and \<open>stripTerminalPunctuation\<close> are of this shape.
\<close>

lemma dropEnd_keeps:
  assumes "z \<noteq> []" and "\<not> P (last z)"
  shows "rev (dropWhile P (rev (u @ z @ v))) = u @ z @ rev (dropWhile P (rev v))"
proof -
  have hd: "\<not> P (hd (rev z))" and ne: "rev z \<noteq> []"
    using assms by (simp_all add: hd_rev)
  then have "dropWhile P (rev z @ rev u) = rev z @ rev u"
    by (cases "rev z") auto
  then have "dropWhile P (rev v @ rev z @ rev u) = dropWhile P (rev v) @ rev z @ rev u"
    by (simp add: dropWhile_append dropWhile_eq_Nil_conv)
  then show ?thesis
    by simp
qed

lemma dropEnd_split: "\<exists>d. s = rev (dropWhile P (rev s)) @ d"
proof -
  have "rev s = takeWhile P (rev s) @ dropWhile P (rev s)"
    by simp
  then have "s = rev (dropWhile P (rev s)) @ rev (takeWhile P (rev s))"
    by (metis rev_append rev_rev_ident)
  then show ?thesis
    by blast
qed

lemma dropEnd_last:
  assumes "rev (dropWhile P (rev s)) \<noteq> []"
  shows "\<not> P (last (rev (dropWhile P (rev s))))"
  using assms by (simp add: last_rev hd_dropWhile)

lemma dropEnd_hd:
  assumes "rev (dropWhile P (rev s)) \<noteq> []"
  shows "hd (rev (dropWhile P (rev s))) = hd s"
proof -
  obtain d where "s = rev (dropWhile P (rev s)) @ d"
    using dropEnd_split by blast
  then have "hd s = hd (rev (dropWhile P (rev s)) @ d)"
    by simp
  with assms show ?thesis
    by simp
qed

lemma trim_split:
  "\<exists>a b. s = a @ trim s @ b"
proof -
  have "s = takeWhile isWhiteSpace s @ dropWhile isWhiteSpace s"
    by simp
  moreover obtain d where "dropWhile isWhiteSpace s = trim s @ d"
    using dropEnd_split[of "dropWhile isWhiteSpace s" isWhiteSpace] by (auto simp: trim_def)
  ultimately have "s = takeWhile isWhiteSpace s @ trim s @ d"
    by simp
  then show ?thesis
    by blast
qed

lemma trim_ends:
  assumes "trim s \<noteq> []"
  shows "\<not> isWhiteSpace (hd (trim s))" and "\<not> isWhiteSpace (last (trim s))"
proof -
  have ne: "dropWhile isWhiteSpace s \<noteq> []"
  proof
    assume empty: "dropWhile isWhiteSpace s = []"
    have "trim s = []"
      unfolding trim_def empty by simp
    with assms show False
      by simp
  qed
  have "hd (trim s) = hd (dropWhile isWhiteSpace s)"
    using assms dropEnd_hd[of isWhiteSpace "dropWhile isWhiteSpace s"] by (simp add: trim_def)
  with ne show "\<not> isWhiteSpace (hd (trim s))"
    by (simp add: hd_dropWhile)
  show "\<not> isWhiteSpace (last (trim s))"
    using assms dropEnd_last[of isWhiteSpace "dropWhile isWhiteSpace s"] by (simp add: trim_def)
qed

lemma trim_keeps:
  assumes "z \<noteq> []" and "\<not> isWhiteSpace (hd z)" and "\<not> isWhiteSpace (last z)"
  shows "\<exists>p q. trim (u @ z @ v) = p @ z @ q"
proof -
  have "dropWhile isWhiteSpace (z @ v) = z @ v"
    using assms by (cases z) auto
  then have "dropWhile isWhiteSpace (u @ z @ v) = dropWhile isWhiteSpace u @ z @ v"
    by (simp add: dropWhile_append dropWhile_eq_Nil_conv)
  then have "trim (u @ z @ v)
      = dropWhile isWhiteSpace u @ z @ rev (dropWhile isWhiteSpace (rev v))"
    using dropEnd_keeps[where P = isWhiteSpace and z = z and u = "dropWhile isWhiteSpace u"
            and v = v, OF assms(1) assms(3)]
    by (simp add: trim_def)
  then show ?thesis
    by blast
qed

lemma collapse_at_letter:
  "\<not> isWhiteSpace x \<Longrightarrow>
   collapseWhitespace (u @ x # r) = collapseWhitespace u @ x # collapseWhitespace r"
proof (induction u rule: collapseWhitespace.induct)
  case 1
  then show ?case by (cases r) auto
next
  case (2 c)
  then show ?case by (cases r) auto
next
  case (3 c d s)
  then show ?case by auto
qed

lemma collapse_keeps:
  assumes "z \<noteq> []" and "\<not> isWhiteSpace (hd z)" and "\<not> isWhiteSpace (last z)"
  shows "collapseWhitespace (p @ z @ q)
           = collapseWhitespace p @ collapseWhitespace z @ collapseWhitespace q"
proof -
  obtain y x where z: "z = y @ [x]"
    using assms(1) by (metis append_butlast_last_id)
  with assms(3) have x: "\<not> isWhiteSpace x"
    by simp
  obtain h t where ht: "z = h # t"
    using assms(1) by (cases z) auto
  with assms(2) have h: "\<not> isWhiteSpace h"
    by simp
  have "collapseWhitespace (p @ z @ q) = collapseWhitespace (p @ y) @ x # collapseWhitespace q"
    using collapse_at_letter[OF x, of "p @ y" q] by (simp add: z)
  moreover have "collapseWhitespace (p @ z) = collapseWhitespace (p @ y) @ [x]"
    using collapse_at_letter[OF x, of "p @ y" "[]"] by (simp add: z)
  ultimately have one: "collapseWhitespace (p @ z @ q)
      = collapseWhitespace (p @ z) @ collapseWhitespace q"
    by simp
  have "collapseWhitespace (p @ z) = collapseWhitespace p @ h # collapseWhitespace t"
    using collapse_at_letter[OF h, of p t] by (simp add: ht)
  moreover have "collapseWhitespace z = h # collapseWhitespace t"
    using collapse_at_letter[OF h, of "[]" t] by (simp add: ht)
  ultimately show ?thesis
    using one by simp
qed

lemma strip_keeps:
  "\<exists>p' q'. stripTerminalPunctuation (p @ c @ q) = p' @ stripTerminalPunctuation c @ q'"
proof (cases "stripTerminalPunctuation c = []")
  case True
  then have "stripTerminalPunctuation (p @ c @ q)
      = [] @ stripTerminalPunctuation c @ stripTerminalPunctuation (p @ c @ q)"
    by simp
  then show ?thesis
    by blast
next
  case False
  then have last: "\<not> isPunctuation (last (stripTerminalPunctuation c))"
    using dropEnd_last[of isPunctuation c] by (simp add: stripTerminalPunctuation_def)
  obtain d where d: "c = stripTerminalPunctuation c @ d"
    using dropEnd_split[of c isPunctuation] by (auto simp: stripTerminalPunctuation_def)
  have "stripTerminalPunctuation (p @ stripTerminalPunctuation c @ (d @ q))
      = p @ stripTerminalPunctuation c @ rev (dropWhile isPunctuation (rev (d @ q)))"
    using dropEnd_keeps[where P = isPunctuation and z = "stripTerminalPunctuation c"
            and u = p and v = "d @ q", OF False last]
    by (simp add: stripTerminalPunctuation_def)
  moreover have "p @ c @ q = p @ stripTerminalPunctuation c @ (d @ q)"
    using d by (metis append_assoc)
  ultimately show ?thesis
    by metis
qed

lemma normalize_keeps:
  assumes "toLowerCase y = p @ toLowerCase x @ q"
  shows "\<exists>p' q'. normalize y = p' @ normalize x @ q'"
proof (cases "trim (toLowerCase x) = []")
  case True
  then have "normalize x = []"
    by (simp add: normalize_def stripTerminalPunctuation_def)
  then have "normalize y = [] @ normalize x @ normalize y"
    by simp
  then show ?thesis
    by blast
next
  case False
  obtain a b where ab: "toLowerCase x = a @ trim (toLowerCase x) @ b"
    using trim_split by blast
  have "toLowerCase y = (p @ a) @ trim (toLowerCase x) @ (b @ q)"
    using assms ab by (metis append_assoc)
  then obtain p1 q1 where "trim (toLowerCase y) = p1 @ trim (toLowerCase x) @ q1"
    using trim_keeps[OF False trim_ends[OF False], of "p @ a" "b @ q"] by auto
  then have "collapseWhitespace (trim (toLowerCase y))
      = collapseWhitespace p1 @ collapseWhitespace (trim (toLowerCase x)) @ collapseWhitespace q1"
    using collapse_keeps[OF False trim_ends[OF False]] by simp
  then show ?thesis
    using strip_keeps[of "collapseWhitespace p1" "collapseWhitespace (trim (toLowerCase x))"
            "collapseWhitespace q1"]
    by (simp add: normalize_def)
qed

lemma sameItem_substring:
  assumes "(\<exists>p q. toLowerCase candidateText = p @ toLowerCase existingText @ q) \<or>
           (\<exists>p q. toLowerCase existingText = p @ toLowerCase candidateText @ q)"
  shows "sameItem candidateText existingText"
  using assms normalize_keeps[of candidateText _ existingText]
    normalize_keeps[of existingText _ candidateText]
  by (auto simp: sameItem_def Let_def includesStr_iff)

lemma isDuplicate_iff:
  "isDuplicate candidateText pool \<longleftrightarrow> (\<exists>e\<in>set pool. sameItem candidateText e)"
  by (simp add: isDuplicate_def list_ex_iff)

subsection \<open>The loop over the candidates\<close>

lemma filtered_drops_similar:
  assumes "userGoal \<in> set userGoals" and "similarGoal aiGoal userGoal"
  shows "aiGoal \<notin> set (filteredAiSuggestedGoals userGoals suggested)"
proof -
  from assms(1) have "length userGoals > 0" by (cases userGoals) auto
  moreover from assms have "list_ex (\<lambda>g. similarGoal aiGoal g) userGoals"
    by (auto simp: list_ex_iff)
  ultimately show ?thesis
    by (simp add: filteredAiSuggestedGoals_def)
qed

lemma similarGoal_substring:
  assumes "(\<exists>p q. toLowerCase (goal_name userGoal) = p @ toLowerCase (ai_name aiGoal) @ q) \<or>
           (\<exists>p q. toLowerCase (ai_name aiGoal) = p @ toLowerCase (goal_name userGoal) @ q)"
  shows "similarGoal aiGoal userGoal"
  using assms by (auto simp: similarGoal_def Let_def includesStr_iff)

lemma isDuplicate_mono:
  "isDuplicate candidateText pool \<Longrightarrow> isDuplicate candidateText (pool @ later)"
  by (auto simp: isDuplicate_iff)

lemma dedupLoop_counts:
  "dedupLoop textOf persist cs pool w = (created, skipped, w')
     \<Longrightarrow> created + skipped = length cs"
proof (induction cs arbitrary: pool w created skipped w')
  case Nil
  then show ?case by simp
next
  case (Cons c cs)
  show ?case
  proof (cases "isDuplicate (textOf c) pool")
    case True
    obtain cr sk v where rest: "dedupLoop textOf persist cs pool w = (cr, sk, v)"
      by (metis prod_cases3)
    with True Cons.prems have "created = cr" and "skipped = Suc sk"
      by simp_all
    with Cons.IH[OF rest] show ?thesis
      by simp
  next
    case False
    obtain cr sk v where rest:
      "dedupLoop textOf persist cs (pool @ [normalize (textOf c)]) (persist c w) = (cr, sk, v)"
      by (metis prod_cases3)
    with False Cons.prems have "created = Suc cr" and "skipped = sk"
      by simp_all
    with Cons.IH[OF rest] show ?thesis
      by simp
  qed
qed

lemma dedupLoop_skips:
  "c \<in> set cs \<Longrightarrow> isDuplicate (textOf c) pool
     \<Longrightarrow> dedupLoop textOf persist cs pool w = (created, skipped, w')
     \<Longrightarrow> 1 \<le> skipped"
proof (induction cs arbitrary: pool w created skipped w')
  case Nil
  then show ?case by simp
next
  case (Cons d cs)
  show ?case
  proof (cases "isDuplicate (textOf d) pool")
    case True
    with Cons.prems(3) show ?thesis
      by (auto split: prod.splits)
  next
    case False
    with Cons.prems(1,2) have mem: "c \<in> set cs"
      by auto
    obtain cr sk v where rest:
      "dedupLoop textOf persist cs (pool @ [normalize (textOf d)]) (persist d w) = (cr, sk, v)"
      by (metis prod_cases3)
    with False Cons.prems(3) have "skipped = sk"
      by simp
    with Cons.IH[OF mem isDuplicate_mono[OF Cons.prems(2)] rest] show ?thesis
      by simp
  qed
qed

lemma dedupLoop_frame:
  assumes "\<And>c v. f (persist c v) = f v"
  shows "f (snd (snd (dedupLoop textOf persist cs pool w))) = f w"
  by (induction cs arbitrary: pool w) (simp_all add: assms case_prod_beta)

lemma dedupLoop_goal_rows:
  "dedupLoop cg_name (persistGoal userId) cs pool w = (created, skipped, w')
     \<Longrightarrow> length (aiGoals w') = length (aiGoals w) + created \<and>
         (\<forall>g\<in>set (aiGoals w'). g \<in> set (aiGoals w) \<or> \<not> isDuplicate (aig_name g) pool)"
proof (induction cs arbitrary: pool w created skipped w')
  case Nil
  then show ?case by simp
next
  case (Cons c cs)
  show ?case
  proof (cases "isDuplicate (cg_name c) pool")
    case True
    obtain cr sk v where rest: "dedupLoop cg_name (persistGoal userId) cs pool w = (cr, sk, v)"
      by (metis prod_cases3)
    with True Cons.prems have "created = cr" and "w' = v"
      by simp_all
    with Cons.IH[OF rest] show ?thesis
      by simp
  next
    case False
    obtain cr sk v where rest:
      "dedupLoop cg_name (persistGoal userId) cs (pool @ [normalize (cg_name c)])
         (persistGoal userId c w) = (cr, sk, v)"
      by (metis prod_cases3)
    with False Cons.prems have eq: "created = Suc cr" "w' = v"
      by simp_all
    have rows: "aiGoals (persistGoal userId c w)
        = aiGoals w @ [\<lparr>aig_id = nextId w, aig_userId = userId, aig_name = cg_name c,
                         aig_description = Some (cg_description c),
                         aig_category = Some (cg_category c), aig_source = ''AI''\<rparr>]"
      by (simp add: persistGoal_def createAiGoal_def)
    from Cons.IH[OF rest]
    have len: "length (aiGoals v) = length (aiGoals (persistGoal userId c w)) + cr"
      and each: "\<forall>g\<in>set (aiGoals v). g \<in> set (aiGoals (persistGoal userId c w)) \<or>
                    \<not> isDuplicate (aig_name g) (pool @ [normalize (cg_name c)])"
      by simp_all
    have "g \<in> set (aiGoals w) \<or> \<not> isDuplicate (aig_name g) pool" if "g \<in> set (aiGoals v)" for g
    proof -
      from each that consider "g \<in> set (aiGoals (persistGoal userId c w))"
        | "\<not> isDuplicate (aig_name g) (pool @ [normalize (cg_name c)])"
        by blast
      then show ?thesis
      proof cases
        case 1
        then show ?thesis
          using False by (auto simp: rows)
      next
        case 2
        then show ?thesis
          using isDuplicate_mono by blast
      qed
    qed
    with len show ?thesis
      by (simp add: eq rows)
  qed
qed

lemma aiGoals_markAnalyzed [simp]: "aiGoals (markAnalyzed ids w) = aiGoals w"
  unfolding markAnalyzed_def by (induction ids arbitrary: w) (simp_all add: updateJournalEntry_def)

lemma goals_markAnalyzed [simp]: "goals (markAnalyzed ids w) = goals w"
  unfolding markAnalyzed_def by (induction ids arbitrary: w) (simp_all add: updateJournalEntry_def)

lemma runForUser_steps:
  assumes "selectUnanalyzed userId limit w \<noteq> []"
    and "extraction env userId limit w = Inr r"
  obtains gc gs w1 tc ts w2 hc hs w3 where
    "dedupLoop cg_name (persistGoal userId) (er_goals r) (goalPool userId w)
       (logCall (Extract (map je_id (selectUnanalyzed userId limit w))) w) = (gc, gs, w1)"
    and "dedupLoop ct_title (persistTask userId) (er_tasks r) (taskPool userId w) w1
           = (tc, ts, w2)"
    and "dedupLoop ch_title (persistHabit userId) (er_habits r) (habitPool userId w) w2
           = (hc, hs, w3)"
    and "runForUser env userId limit w
           = (Inr \<lparr>goalsCreated = gc, tasksCreated = tc, habitsCreated = hc,
                   goalsSkipped = gs, tasksSkipped = ts, habitsSkipped = hs\<rparr>,
              markAnalyzed (map je_id (selectUnanalyzed userId limit w)) w3)"
proof -
  obtain gc gs w1 where g:
    "dedupLoop cg_name (persistGoal userId) (er_goals r) (goalPool userId w)
       (logCall (Extract (map je_id (selectUnanalyzed userId limit w))) w) = (gc, gs, w1)"
    by (metis prod_cases3)
  obtain tc ts w2 where t:
    "dedupLoop ct_title (persistTask userId) (er_tasks r) (taskPool userId w) w1 = (tc, ts, w2)"
    by (metis prod_cases3)
  obtain hc hs w3 where h:
    "dedupLoop ch_title (persistHabit userId) (er_habits r) (habitPool userId w) w2 = (hc, hs, w3)"
    by (metis prod_cases3)
  have "runForUser env userId limit w
           = (Inr \<lparr>goalsCreated = gc, tasksCreated = tc, habitsCreated = hc,
                   goalsSkipped = gs, tasksSkipped = ts, habitsSkipped = hs\<rparr>,
              markAnalyzed (map je_id (selectUnanalyzed userId limit w)) w3)"
    using assms g t h by (simp add: runForUser_def Let_def)
  with g t h that show ?thesis
    by blast
qed


subsection \<open>The candidate is skipped\<close>

text \<open>
  C1. Take a run of the pipeline for a user with entries to analyze whose extraction
  succeeds, a candidate goal among those extracted, and an existing goal of that user,
  durable or suggested, such that the lower-cased name of one of the two occurs inside
  the lower-cased name of the other. Then \<open>isDuplicate\<close> classifies the candidate as a
  duplicate of the pool; the run returns a summary in which every candidate goal is
  counted as created or as skipped and at least one is skipped; it writes as many
  suggested goals as it counts created, none of them with the name of the candidate,
  and leaves the durable goals as they are. When the candidate is the only goal
  extracted, as in the scenario of "Read more books" and "read more books daily", the
  summary has \<open>goalsSkipped = 1\<close> and \<open>goalsCreated = 0\<close>. On the goals page, under the
  same condition on the names, the filter of the suggested goals leaves the suggestion
  out of the list shown.
\<close>

theorem substring_duplicate_not_created:
  assumes "selectUnanalyzed userId limit w \<noteq> []"
    and "extraction env userId limit w = Inr r"
    and "c \<in> set (er_goals r)"
    and "existing \<in> set (goalPool userId w)"
    and "(\<exists>p q. toLowerCase (cg_name c) = p @ toLowerCase existing @ q) \<or>
         (\<exists>p q. toLowerCase existing = p @ toLowerCase (cg_name c) @ q)"
  shows "isDuplicate (cg_name c) (goalPool userId w) \<and>
         (\<exists>s. fst (runForUser env userId limit w) = Inr s \<and>
              goalsCreated s + goalsSkipped s = length (er_goals r) \<and>
              1 \<le> goalsSkipped s \<and>
              (er_goals r = [c] \<longrightarrow> goalsSkipped s = 1 \<and> goalsCreated s = 0) \<and>
              length (aiGoals (snd (runForUser env userId limit w)))
                = length (aiGoals w) + goalsCreated s) \<and>
         (\<forall>g\<in>set (aiGoals (snd (runForUser env userId limit w))).
              aig_name g = cg_name c \<longrightarrow> g \<in> set (aiGoals w)) \<and>
         goals (snd (runForUser env userId limit w)) = goals w \<and>
         (userGoal \<in> set userGoals \<and>
          ((\<exists>p q. toLowerCase (goal_name userGoal) = p @ toLowerCase (ai_name aiGoal) @ q) \<or>
           (\<exists>p q. toLowerCase (ai_name aiGoal) = p @ toLowerCase (goal_name userGoal) @ q))
          \<longrightarrow> aiGoal \<notin> set (filteredAiSuggestedGoals userGoals suggested))"
proof -
  have dup: "isDuplicate (cg_name c) (goalPool userId w)"
    using assms(4) sameItem_substring[OF assms(5)] by (auto simp: isDuplicate_iff)
  obtain gc gs w1 tc ts w2 hc hs w3 where
    g: "dedupLoop cg_name (persistGoal userId) (er_goals r) (goalPool userId w)
         (logCall (Extract (map je_id (selectUnanalyzed userId limit w))) w) = (gc, gs, w1)"
    and t: "dedupLoop ct_title (persistTask userId) (er_tasks r) (taskPool userId w) w1
              = (tc, ts, w2)"
    and h: "dedupLoop ch_title (persistHabit userId) (er_habits r) (habitPool userId w) w2
              = (hc, hs, w3)"
    and run: "runForUser env userId limit w
           = (Inr \<lparr>goalsCreated = gc, tasksCreated = tc, habitsCreated = hc,
                   goalsSkipped = gs, tasksSkipped = ts, habitsSkipped = hs\<rparr>,
              markAnalyzed (map je_id (selectUnanalyzed userId limit w)) w3)"
    using runForUser_steps[OF assms(1,2)] by blast
  have counts: "gc + gs = length (er_goals r)"
    using dedupLoop_counts[OF g] .
  have skipped: "1 \<le> gs"
    using dedupLoop_skips[OF assms(3) dup g] .
  have w2: "w2 = snd (snd (dedupLoop ct_title (persistTask userId) (er_tasks r)
                            (taskPool userId w) w1))"
    and w3: "w3 = snd (snd (dedupLoop ch_title (persistHabit userId) (er_habits r)
                            (habitPool userId w) w2))"
    by (simp_all add: t h)
  have "aiGoals w2 = aiGoals w1"
    unfolding w2 by (rule dedupLoop_frame) (simp add: persistTask_def createAiTask_def)
  moreover have "aiGoals w3 = aiGoals w2"
    unfolding w3 by (rule dedupLoop_frame) (simp add: persistHabit_def createAiHabit_def)
  ultimately have rows3: "aiGoals w3 = aiGoals w1"
    by simp
  have w1: "w1 = snd (snd (dedupLoop cg_name (persistGoal userId) (er_goals r)
                            (goalPool userId w)
                            (logCall (Extract (map je_id (selectUnanalyzed userId limit w))) w)))"
    by (simp add: g)
  have "goals w1 = goals (logCall (Extract (map je_id (selectUnanalyzed userId limit w))) w)"
    unfolding w1 by (rule dedupLoop_frame) (simp add: persistGoal_def createAiGoal_def)
  moreover have "goals w2 = goals w1"
    unfolding w2 by (rule dedupLoop_frame) (simp add: persistTask_def createAiTask_def)
  moreover have "goals w3 = goals w2"
    unfolding w3 by (rule dedupLoop_frame) (simp add: persistHabit_def createAiHabit_def)
  ultimately have durable: "goals w3 = goals w"
    by (simp add: logCall_def)
  from dedupLoop_goal_rows[OF g]
  have len: "length (aiGoals w1) = length (aiGoals w) + gc"
    and each: "\<forall>g\<in>set (aiGoals w1). g \<in> set (aiGoals w) \<or>
                 \<not> isDuplicate (aig_name g) (goalPool userId w)"
    by (simp_all add: logCall_def)
  have summary: "\<exists>s. fst (runForUser env userId limit w) = Inr s \<and>
              goalsCreated s + goalsSkipped s = length (er_goals r) \<and>
              1 \<le> goalsSkipped s \<and>
              (er_goals r = [c] \<longrightarrow> goalsSkipped s = 1 \<and> goalsCreated s = 0) \<and>
              length (aiGoals (snd (runForUser env userId limit w)))
                = length (aiGoals w) + goalsCreated s"
    using counts skipped len by (auto simp: run rows3)
  have norow: "\<forall>g\<in>set (aiGoals (snd (runForUser env userId limit w))).
              aig_name g = cg_name c \<longrightarrow> g \<in> set (aiGoals w)"
    using each dup by (auto simp: run rows3)
  have kept: "goals (snd (runForUser env userId limit w)) = goals w"
    by (simp add: run durable)
  have page: "userGoal \<in> set userGoals \<and>
          ((\<exists>p q. toLowerCase (goal_name userGoal) = p @ toLowerCase (ai_name aiGoal) @ q) \<or>
           (\<exists>p q. toLowerCase (ai_name aiGoal) = p @ toLowerCase (goal_name userGoal) @ q))
          \<longrightarrow> aiGoal \<notin> set (filteredAiSuggestedGoals userGoals suggested)"
    using filtered_drops_similar[of userGoal userGoals aiGoal suggested]
      similarGoal_substring[of userGoal aiGoal]
    by blast
  from dup summary norow kept page show ?thesis
    by blast
qed

theorem substring_duplicate_not_created_witness:
  "isDuplicate ''read more books daily'' (goalPool 1 readingWorld) \<and>
   fst (runForUser readingEnv 1 3 readingWorld)
     = Inr \<lparr>goalsCreated = 0, tasksCreated = 0, habitsCreated = 0,
            goalsSkipped = 1, tasksSkipped = 0, habitsSkipped = 0\<rparr> \<and>
   aiGoals (snd (runForUser readingEnv 1 3 readingWorld)) = [] \<and>
   goals (snd (runForUser readingEnv 1 3 readingWorld)) = goals readingWorld \<and>
   isDuplicate ''call mom every sunday'' (goalPool 1 callingWorld) \<and>
   fst (runForUser callingEnv 1 3 callingWorld)
     = Inr \<lparr>goalsCreated = 0, tasksCreated = 0, habitsCreated = 0,
            goalsSkipped = 1, tasksSkipped = 0, habitsSkipped = 0\<rparr> \<and>
   aiGoals (snd (runForUser callingEnv 1 3 callingWorld)) = [] \<and>
   readDaily \<notin> set (filteredAiSuggestedGoals [readMoreBooks] [readDaily])"
proof -
  let ?r = "\<lparr>er_goals = [readingGoal], er_tasks = [], er_habits = []\<rparr>"
  let ?c = "\<lparr>er_goals = [callingGoal], er_tasks = [], er_habits = []\<rparr>"
  have entries: "selectUnanalyzed 1 3 readingWorld \<noteq> []"
    by code_simp
  have extracted: "extraction readingEnv 1 3 readingWorld = Inr ?r"
    by (simp add: extraction_def readingEnv_def)
  have candidate: "readingGoal \<in> set (er_goals ?r)"
    by simp
  have existing: "''Read more books'' \<in> set (goalPool 1 readingWorld)"
    by code_simp
  have "includesStr (toLowerCase (cg_name readingGoal)) (toLowerCase ''Read more books'')"
    by code_simp
  then have "\<exists>p q. toLowerCase (cg_name readingGoal) = p @ toLowerCase ''Read more books'' @ q"
    by (simp only: includesStr_iff)
  then have inside: "(\<exists>p q. toLowerCase (cg_name readingGoal)
                              = p @ toLowerCase ''Read more books'' @ q) \<or>
                     (\<exists>p q. toLowerCase ''Read more books''
                              = p @ toLowerCase (cg_name readingGoal) @ q)"
    by (rule disjI1)
  have mem: "readMoreBooks \<in> set [readMoreBooks]"
    by simp
  have "includesStr (toLowerCase (ai_name readDaily)) (toLowerCase (goal_name readMoreBooks))"
    by code_simp
  then have shown: "\<exists>p q. toLowerCase (ai_name readDaily)
                            = p @ toLowerCase (goal_name readMoreBooks) @ q"
    by (simp only: includesStr_iff)
  have entries': "selectUnanalyzed 1 3 callingWorld \<noteq> []"
    by code_simp
  have extracted': "extraction callingEnv 1 3 callingWorld = Inr ?c"
    by (simp add: extraction_def callingEnv_def)
  have candidate': "callingGoal \<in> set (er_goals ?c)"
    by simp
  have existing': "''Call mom'' \<in> set (goalPool 1 callingWorld)"
    by code_simp
  have "includesStr (toLowerCase (cg_name callingGoal)) (toLowerCase ''Call mom'')"
    by code_simp
  then have "\<exists>p q. toLowerCase (cg_name callingGoal) = p @ toLowerCase ''Call mom'' @ q"
    by (simp only: includesStr_iff)
  then have inside': "(\<exists>p q. toLowerCase (cg_name callingGoal)
                              = p @ toLowerCase ''Call mom'' @ q) \<or>
                     (\<exists>p q. toLowerCase ''Call mom''
                              = p @ toLowerCase (cg_name callingGoal) @ q)"
    by (rule disjI1)
  have none: "aiGoals readingWorld = []" and none': "aiGoals callingWorld = []"
    by (simp_all add: readingWorld_def callingWorld_def emptyWorld_def)
  have names: "cg_name readingGoal = ''read more books daily''"
    "cg_name callingGoal = ''call mom every sunday''"
    by (simp_all add: readingGoal_def callingGoal_def)
  have summary: "fst (runForUser readingEnv 1 3 readingWorld)
     = Inr \<lparr>goalsCreated = 0, tasksCreated = 0, habitsCreated = 0,
            goalsSkipped = 1, tasksSkipped = 0, habitsSkipped = 0\<rparr>"
    by code_simp
  have summary': "fst (runForUser callingEnv 1 3 callingWorld)
     = Inr \<lparr>goalsCreated = 0, tasksCreated = 0, habitsCreated = 0,
            goalsSkipped = 1, tasksSkipped = 0, habitsSkipped = 0\<rparr>"
    by code_simp
  from substring_duplicate_not_created[OF entries extracted candidate existing inside,
         of readMoreBooks "[readMoreBooks]" readDaily "[readDaily]"] mem shown
  have reading: "isDuplicate ''read more books daily'' (goalPool 1 readingWorld) \<and>
     aiGoals (snd (runForUser readingEnv 1 3 readingWorld)) = [] \<and>
     goals (snd (runForUser readingEnv 1 3 readingWorld)) = goals readingWorld \<and>
     readDaily \<notin> set (filteredAiSuggestedGoals [readMoreBooks] [readDaily])"
    by (auto simp: names none summary)
  from substring_duplicate_not_created[OF entries' extracted' candidate' existing' inside',
         of readMoreBooks "[readMoreBooks]" readDaily "[readDaily]"]
  have calling: "isDuplicate ''call mom every sunday'' (goalPool 1 callingWorld) \<and>
     aiGoals (snd (runForUser callingEnv 1 3 callingWorld)) = []"
    by (auto simp: names none' summary')
  from reading calling summary summary' show ?thesis
    by blast
qed


text \<open>
  In the scenario of "Call mom" and "call mom every sunday" neither name holds a strong
  keyword and the normal forms are not equal: the candidate is a duplicate by the
  substring rule alone.
\<close>

lemma calling_scenario_no_keyword:
  "\<not> list_ex (\<lambda>k. includesStr (normalize ''call mom every sunday'') k \<and>
                    includesStr (normalize ''Call mom'') k) strongKeywords \<and>
   normalize ''call mom every sunday'' \<noteq> normalize ''Call mom''"
  by code_simp

section \<open>What a comparison does to the two texts\<close>

subsection \<open>The normal form\<close>

lemma collapse_chars: "set (collapseWhitespace s) \<subseteq> insert CHR '' '' (set s)"
  by (induction s rule: collapseWhitespace.induct) auto

lemma collapse_spaces:
  "c \<in> set (collapseWhitespace s) \<Longrightarrow> isWhiteSpace c \<Longrightarrow> c = CHR '' ''"
  by (induction s rule: collapseWhitespace.induct) (auto split: if_splits)

lemma collapse_single:
  "collapseWhitespace s = p @ c # d # q \<Longrightarrow> \<not> (isWhiteSpace c \<and> isWhiteSpace d)"
proof (induction s arbitrary: p rule: collapseWhitespace.induct)
  case 1
  then show ?case by simp
next
  case (2 x)
  then show ?case by (cases p) auto
next
  case (3 x y s)
  show ?case
  proof (cases "isWhiteSpace x \<and> isWhiteSpace y")
    case True
    with "3.prems" "3.IH"(1) show ?thesis
      by simp
  next
    case False
    then have eq: "(if isWhiteSpace x then CHR '' '' else x) # collapseWhitespace (y # s)
                     = p @ c # d # q"
      using "3.prems" by (auto split: if_splits)
    show ?thesis
    proof (cases p)
      case Nil
      with eq have c: "c = (if isWhiteSpace x then CHR '' '' else x)"
        and rest: "collapseWhitespace (y # s) = d # q"
        by simp_all
      show ?thesis
      proof
        assume both: "isWhiteSpace c \<and> isWhiteSpace d"
        with c have "isWhiteSpace x"
          by (auto split: if_splits)
        with False have y: "\<not> isWhiteSpace y"
          by simp
        have "collapseWhitespace (y # s) = y # collapseWhitespace s"
          using collapse_at_letter[OF y, of "[]" s] by simp
        with rest have "d = y"
          by simp
        with both y show False
          by simp
      qed
    next
      case (Cons h p')
      with eq have "collapseWhitespace (y # s) = p' @ c # d # q"
        by simp
      with False "3.IH"(2) show ?thesis
        by blast
    qed
  qed
qed

lemma dropEnd_chars: "set (rev (dropWhile P (rev s))) \<subseteq> set s"
  using set_dropWhileD[of _ P "rev s"] by auto

lemma trim_chars: "set (trim s) \<subseteq> set s"
proof -
  have "set (trim s) \<subseteq> set (dropWhile isWhiteSpace s)"
    unfolding trim_def by (rule dropEnd_chars)
  also have "\<dots> \<subseteq> set s"
    using set_dropWhileD[of _ isWhiteSpace s] by auto
  finally show ?thesis .
qed

lemma normalize_chars:
  "set (normalize text) \<subseteq> insert CHR '' '' (set (toLowerCase text))"
proof -
  have "set (normalize text) \<subseteq> set (collapseWhitespace (trim (toLowerCase text)))"
    unfolding normalize_def stripTerminalPunctuation_def by (rule dropEnd_chars)
  also have "\<dots> \<subseteq> insert CHR '' '' (set (trim (toLowerCase text)))"
    by (rule collapse_chars)
  also have "\<dots> \<subseteq> insert CHR '' '' (set (toLowerCase text))"
    using trim_chars[of "toLowerCase text"] by auto
  finally show ?thesis .
qed

lemma toLowerCase_space: "toLowerCase_char CHR '' '' = CHR '' ''"
  by code_simp

lemma normalize_lower: "toLowerCase (normalize text) = normalize text"
proof -
  have "toLowerCase_char c = c" if "c \<in> set (normalize text)" for c
  proof -
    from that normalize_chars have "c = CHR '' '' \<or> c \<in> set (toLowerCase text)"
      by blast
    then show ?thesis
      by (auto simp: toLowerCase_def toLowerCase_space toLowerCase_char_idem)
  qed
  then show ?thesis
    unfolding toLowerCase_def by (simp add: map_idI)
qed

lemma normalize_ends:
  assumes "normalize text \<noteq> []"
  shows "\<not> isWhiteSpace (hd (normalize text))" and "\<not> isPunctuation (last (normalize text))"
proof -
  let ?t = "trim (toLowerCase text)"
  have t: "?t \<noteq> []"
    using assms by (auto simp: normalize_def stripTerminalPunctuation_def)
  then obtain h r where hr: "?t = h # r"
    by (cases ?t) auto
  with trim_ends(1)[OF t] have h: "\<not> isWhiteSpace h"
    by simp
  have "collapseWhitespace ?t = h # collapseWhitespace r"
    using collapse_at_letter[OF h, of "[]" r] by (simp add: hr)
  moreover have "hd (normalize text) = hd (collapseWhitespace ?t)"
    using assms dropEnd_hd[of isPunctuation "collapseWhitespace ?t"]
    by (simp add: normalize_def stripTerminalPunctuation_def)
  ultimately show "\<not> isWhiteSpace (hd (normalize text))"
    using h by simp
  show "\<not> isPunctuation (last (normalize text))"
    using assms dropEnd_last[of isPunctuation "collapseWhitespace ?t"]
    by (simp add: normalize_def stripTerminalPunctuation_def)
qed

lemma normalize_single:
  assumes "normalize text = p @ c # d # q"
  shows "\<not> (isWhiteSpace c \<and> isWhiteSpace d)"
proof -
  obtain rest where "collapseWhitespace (trim (toLowerCase text)) = normalize text @ rest"
    using dropEnd_split[of "collapseWhitespace (trim (toLowerCase text))" isPunctuation]
    by (auto simp: normalize_def stripTerminalPunctuation_def)
  with assms have "collapseWhitespace (trim (toLowerCase text)) = p @ c # d # (q @ rest)"
    by simp
  then show ?thesis
    by (rule collapse_single)
qed

lemma normalize_spaces:
  assumes "c \<in> set (normalize text)" and "isWhiteSpace c"
  shows "c = CHR '' ''"
proof -
  have "set (normalize text) \<subseteq> set (collapseWhitespace (trim (toLowerCase text)))"
    unfolding normalize_def stripTerminalPunctuation_def by (rule dropEnd_chars)
  with assms(1) have "c \<in> set (collapseWhitespace (trim (toLowerCase text)))"
    by blast
  then show ?thesis
    using assms(2) by (rule collapse_spaces)
qed

lemma sameItem_normal_forms:
  assumes "normalize c = normalize c'" and "normalize e = normalize e'"
  shows "sameItem c e = sameItem c' e'"
  using assms by (simp add: sameItem_def)

lemma isDuplicate_by_normal_forms:
  "isDuplicate c pool =
     (\<exists>e\<in>set (map normalize pool).
        normalize c = e \<or> includesStr (normalize c) e \<or> includesStr e (normalize c) \<or>
        list_ex (\<lambda>k. includesStr (normalize c) k \<and> includesStr e k) strongKeywords)"
  by (simp add: isDuplicate_def list_ex_iff sameItem_def Let_def)

lemma isDuplicate_normal_forms:
  assumes "normalize c = normalize c'" and "map normalize pool = map normalize pool'"
  shows "isDuplicate c pool = isDuplicate c' pool'"
  unfolding isDuplicate_by_normal_forms assms ..

lemma page_comparisons_lower_forms:
  assumes "toLowerCase a = toLowerCase a'" and "toLowerCase b = toLowerCase b'"
  shows "similarGoalOnSubmit a b = similarGoalOnSubmit a' b'"
    and "similarHabitOnSubmit a b = similarHabitOnSubmit a' b'"
    and "similarHabit a b = similarHabit a' b'"
    and "sameGoalName a b = sameGoalName a' b'"
  using assms
  by (simp_all add: similarGoalOnSubmit_def similarHabitOnSubmit_def similarHabit_def
        sameGoalName_def)

lemma similarGoal_lower_forms:
  assumes "toLowerCase (ai_name a) = toLowerCase (ai_name a')"
    and "toLowerCase (goal_name g) = toLowerCase (goal_name g')"
  shows "similarGoal a g = similarGoal a' g'"
  using assms by (simp add: similarGoal_def)


subsection \<open>The comparisons\<close>

text \<open>
  The normalizer maps "Run 5k!" and "run 5k." to the same text, and the duplicate check
  of the pipeline matches the two. The comparisons of the goals page and the goal match
  of \<open>routes.ts\<close> do not: the filter keeps the suggestion "Run 5k!" next to the goal
  "run 5k.", and neither the checks on submitting a goal or a habit, nor the filter of
  suggested habits, nor the match of a goal's name find the two alike. They lower-case
  and do not strip the final punctuation mark.
\<close>

theorem comparison_normalize_counterexample:
  "normalize ''Run 5k!'' = normalize ''run 5k.'' \<and>
   sameItem ''Run 5k!'' ''run 5k.'' \<and>
   \<not> similarGoal runSuggestion runGoal \<and>
   filteredAiSuggestedGoals [runGoal] [runSuggestion] = [runSuggestion] \<and>
   \<not> similarGoalOnSubmit ''run 5k.'' ''Run 5k!'' \<and>
   \<not> similarHabitOnSubmit ''run 5k.'' ''Run 5k!'' \<and>
   \<not> similarHabit ''Run 5k!'' ''run 5k.'' \<and>
   \<not> sameGoalName ''run 5k.'' ''Run 5k!''"
  by code_simp


text \<open>
  C8, as amended. \<open>normalize\<close> is a total function of its argument alone: it lower-cases,
  trims, collapses white space and strips terminal punctuation. Its result is in lower
  case; when not empty it begins with no white space and ends with no punctuation mark;
  it holds no two white-space characters in a row, and the only white-space character
  in it is the space. The duplicate check of the pipeline applies it to the candidate
  and to every text of the pool: its verdict depends on them only through their normal
  forms. The comparisons of the goals page (the filters of suggested goals and of
  suggested habits, the checks on submitting a goal and a habit) and the goal match of
  \<open>routes.ts\<close> apply lower-casing, and nothing else, to both sides: their verdicts
  depend on the two texts only through their lower-cased forms.
\<close>

theorem normalizer_and_comparisons:
  "normalize rawText = stripTerminalPunctuation (collapseWhitespace (trim (toLowerCase rawText))) \<and>
   toLowerCase (normalize rawText) = normalize rawText \<and>
   (normalize rawText \<noteq> [] \<longrightarrow>
      \<not> isWhiteSpace (hd (normalize rawText)) \<and> \<not> isPunctuation (last (normalize rawText))) \<and>
   (\<forall>p c d q. normalize rawText = p @ c # d # q \<longrightarrow> \<not> (isWhiteSpace c \<and> isWhiteSpace d)) \<and>
   (\<forall>c\<in>set (normalize rawText). isWhiteSpace c \<longrightarrow> c = CHR '' '') \<and>
   (normalize candidateText = normalize candidateText' \<and>
    map normalize existingTexts = map normalize existingTexts'
      \<longrightarrow> isDuplicate candidateText existingTexts = isDuplicate candidateText' existingTexts') \<and>
   (toLowerCase (ai_name aiGoal) = toLowerCase (ai_name aiGoal') \<and>
    toLowerCase (goal_name userGoal) = toLowerCase (goal_name userGoal')
      \<longrightarrow> similarGoal aiGoal userGoal = similarGoal aiGoal' userGoal') \<and>
   (toLowerCase a = toLowerCase a' \<and> toLowerCase b = toLowerCase b'
      \<longrightarrow> similarGoalOnSubmit a b = similarGoalOnSubmit a' b' \<and>
          similarHabitOnSubmit a b = similarHabitOnSubmit a' b' \<and>
          similarHabit a b = similarHabit a' b' \<and>
          sameGoalName a b = sameGoalName a' b')"
proof -
  have one: "normalize rawText
      = stripTerminalPunctuation (collapseWhitespace (trim (toLowerCase rawText)))"
    by (simp add: normalize_def)
  have two: "normalize rawText \<noteq> [] \<longrightarrow>
      \<not> isWhiteSpace (hd (normalize rawText)) \<and> \<not> isPunctuation (last (normalize rawText))"
    using normalize_ends by blast
  have three: "\<forall>p c d q. normalize rawText = p @ c # d # q
      \<longrightarrow> \<not> (isWhiteSpace c \<and> isWhiteSpace d)"
    using normalize_single by blast
  have four: "\<forall>c\<in>set (normalize rawText). isWhiteSpace c \<longrightarrow> c = CHR '' ''"
    using normalize_spaces by blast
  have five: "normalize candidateText = normalize candidateText' \<and>
    map normalize existingTexts = map normalize existingTexts'
      \<longrightarrow> isDuplicate candidateText existingTexts = isDuplicate candidateText' existingTexts'"
    using isDuplicate_normal_forms by blast
  have six: "toLowerCase (ai_name aiGoal) = toLowerCase (ai_name aiGoal') \<and>
    toLowerCase (goal_name userGoal) = toLowerCase (goal_name userGoal')
      \<longrightarrow> similarGoal aiGoal userGoal = similarGoal aiGoal' userGoal'"
    using similarGoal_lower_forms by blast
  have seven: "toLowerCase a = toLowerCase a' \<and> toLowerCase b = toLowerCase b'
      \<longrightarrow> similarGoalOnSubmit a b = similarGoalOnSubmit a' b' \<and>
          similarHabitOnSubmit a b = similarHabitOnSubmit a' b' \<and>
          similarHabit a b = similarHabit a' b' \<and>
          sameGoalName a b = sameGoalName a' b'"
    using page_comparisons_lower_forms[of a a' b b'] by blast
  from one normalize_lower[of rawText] two three four five six seven show ?thesis
    by blast
qed

theorem normalizer_and_comparisons_witness:
  "normalize ''  Run   5k!! '' = ''run 5k'' \<and>
   toLowerCase (normalize ''  Run   5k!! '') = normalize ''  Run   5k!! '' \<and>
   \<not> isWhiteSpace (hd (normalize ''  Run   5k!! '')) \<and>
   \<not> isPunctuation (last (normalize ''  Run   5k!! '')) \<and>
   \<not> (isWhiteSpace CHR ''n'' \<and> isWhiteSpace CHR '' '') \<and>
   isDuplicate ''Run 5k!'' [''run 5k.''] = isDuplicate '' RUN  5K.'' [''Run 5k''] \<and>
   similarGoal readDaily readMoreBooks
     = similarGoal (readDaily\<lparr>ai_name := ''READ MORE BOOKS DAILY''\<rparr>)
                   (readMoreBooks\<lparr>goal_name := ''read MORE books''\<rparr>) \<and>
   similarGoalOnSubmit ''Run 5k!'' ''run 5k.'' = similarGoalOnSubmit ''RUN 5K!'' ''RUN 5k.'' \<and>
   similarHabitOnSubmit ''Run 5k!'' ''run 5k.'' = similarHabitOnSubmit ''RUN 5K!'' ''RUN 5k.'' \<and>
   similarHabit ''Run 5k!'' ''run 5k.'' = similarHabit ''RUN 5K!'' ''RUN 5k.'' \<and>
   sameGoalName ''Run 5k!'' ''run 5k.'' = sameGoalName ''RUN 5K!'' ''RUN 5k.''"
proof -
  have form: "normalize ''  Run   5k!! '' = ''run 5k''"
    by code_simp
  have filled: "normalize ''  Run   5k!! '' \<noteq> []"
    by code_simp
  have parts: "normalize ''  Run   5k!! '' = ''ru'' @ CHR ''n'' # CHR '' '' # ''5k''"
    by code_simp
  have space: "CHR '' '' \<in> set (normalize ''  Run   5k!! '')"
    by code_simp
  have white: "isWhiteSpace CHR '' ''"
    by code_simp
  have normal: "normalize ''Run 5k!'' = normalize '' RUN  5K.'' \<and>
                map normalize [''run 5k.''] = map normalize [''Run 5k'']"
    by code_simp
  have lower: "toLowerCase (ai_name readDaily)
                 = toLowerCase (ai_name (readDaily\<lparr>ai_name := ''READ MORE BOOKS DAILY''\<rparr>)) \<and>
               toLowerCase (goal_name readMoreBooks)
                 = toLowerCase (goal_name (readMoreBooks\<lparr>goal_name := ''read MORE books''\<rparr>))"
    by code_simp
  have names: "toLowerCase ''Run 5k!'' = toLowerCase ''RUN 5K!'' \<and>
               toLowerCase ''run 5k.'' = toLowerCase ''RUN 5k.''"
    by code_simp
  from normalizer_and_comparisons[where rawText = "''  Run   5k!! ''"
         and candidateText = "''Run 5k!''" and candidateText' = "'' RUN  5K.''"
         and existingTexts = "[''run 5k.'']" and existingTexts' = "[''Run 5k'']"
         and aiGoal = readDaily
         and aiGoal' = "readDaily\<lparr>ai_name := ''READ MORE BOOKS DAILY''\<rparr>"
         and userGoal = readMoreBooks
         and userGoal' = "readMoreBooks\<lparr>goal_name := ''read MORE books''\<rparr>"
         and a = "''Run 5k!''" and a' = "''RUN 5K!''"
         and b = "''run 5k.''" and b' = "''RUN 5k.''"]
    form filled parts space white normal lower names
  show ?thesis
    by blast
qed

section \<open>The analyzed flag over the life of an entry\<close>

subsection \<open>Looking an entry up after a storage operation\<close>

lemma find_mapped:
  assumes "\<And>x. P (f x) = P x"
  shows "find P (map f xs) = map_option f (find P xs)"
  using assms by (induction xs) auto

lemma find_holds: "find P xs = Some x \<Longrightarrow> P x"
  by (induction xs) (auto split: if_splits)

lemma find_snoc:
  "find P (xs @ [e]) = (case find P xs of Some x \<Rightarrow> Some x | None \<Rightarrow> if P e then Some e else None)"
  by (induction xs) auto

lemma find_filter_ne:
  "find (\<lambda>e. f e = i) (filter (\<lambda>e. f e \<noteq> j) xs) = (if i = j then None else find (\<lambda>e. f e = i) xs)"
  by (induction xs) (auto simp: find_None_iff)

lemma lookup_logCall [simp]: "getJournalEntryById i (logCall c w) = getJournalEntryById i w"
  by (simp add: getJournalEntryById_def logCall_def)

lemma lookup_update:
  assumes "\<And>e. je_id (upd e) = je_id e"
  shows "getJournalEntryById i (updateJournalEntry j upd w)
           = map_option (if i = j then upd else (\<lambda>e. e)) (getJournalEntryById i w)"
proof -
  let ?f = "\<lambda>e. if je_id e = j then upd e else e"
  have "find (\<lambda>e. je_id e = i) (map ?f (journalEntries w))
          = map_option ?f (find (\<lambda>e. je_id e = i) (journalEntries w))"
    by (rule find_mapped) (simp add: assms)
  moreover have "map_option ?f (find (\<lambda>e. je_id e = i) (journalEntries w))
          = map_option (if i = j then upd else (\<lambda>e. e)) (find (\<lambda>e. je_id e = i) (journalEntries w))"
    by (cases "find (\<lambda>e. je_id e = i) (journalEntries w)") (auto dest: find_holds)
  ultimately show ?thesis
    by (simp add: getJournalEntryById_def updateJournalEntry_def)
qed

lemma lookup_create:
  assumes "idsIssued w"
  shows "getJournalEntryById i (snd (createJournalEntry ins w))
           = (if i = nextId w then Some (ins\<lparr>je_id := nextId w\<rparr>) else getJournalEntryById i w)"
proof -
  have fresh: "find (\<lambda>e. je_id e = nextId w) (journalEntries w) = None"
    using assms by (auto simp: idsIssued_def list_all_iff find_None_iff)
  show ?thesis
    using fresh
    by (auto simp: getJournalEntryById_def createJournalEntry_def Let_def find_snoc
          split: option.splits)
qed

lemma lookup_permanentlyDelete:
  "getJournalEntryById i (permanentlyDeleteJournalEntry j w)
     = (if i = j then None else getJournalEntryById i w)"
  by (simp add: getJournalEntryById_def permanentlyDeleteJournalEntry_def find_filter_ne)


subsection \<open>Operations that never take a stage back\<close>

lemma advances_refl: "advances w w"
  by (simp add: advances_def)

lemma advances_then: "advances w1 w2 \<Longrightarrow> advances w w1 \<Longrightarrow> advances w w2"
  unfolding advances_def by (meson le_trans)

lemma advances_frame:
  assumes "journalEntries w2 = journalEntries w1" and "nextId w1 \<le> nextId w2"
  shows "advances w1 w2"
  using assms
  by (auto simp: advances_def idsIssued_def list_all_iff entryStage_def getJournalEntryById_def
        split: option.splits)

lemma advances_create: "advances w (snd (createJournalEntry ins w))"
proof -
  have "idsIssued (snd (createJournalEntry ins w))" if "idsIssued w"
    using that by (auto simp: idsIssued_def list_all_iff createJournalEntry_def Let_def)
  moreover have "nextId w \<le> nextId (snd (createJournalEntry ins w))"
    by (simp add: createJournalEntry_def Let_def)
  moreover have "entryStage i w \<le> entryStage i (snd (createJournalEntry ins w))"
    if "idsIssued w" for i
  proof -
    have "find (\<lambda>e. je_id e = nextId w) (journalEntries w) = None"
      using that by (auto simp: idsIssued_def list_all_iff find_None_iff)
    then have "entryStage (nextId w) w = 0"
      by (simp add: entryStage_def getJournalEntryById_def)
    moreover have "nextId (snd (createJournalEntry ins w)) = Suc (nextId w)"
      by (simp add: createJournalEntry_def Let_def)
    ultimately show ?thesis
      by (cases "i = nextId w")
         (auto simp: entryStage_def lookup_create[OF that] split: option.splits)
  qed
  ultimately show ?thesis
    by (simp add: advances_def)
qed

lemma advances_update:
  assumes "\<And>e. je_id (upd e) = je_id e" and "\<And>e. je_analyzed e \<Longrightarrow> je_analyzed (upd e)"
  shows "advances w (updateJournalEntry j upd w)"
proof -
  have "idsIssued (updateJournalEntry j upd w)" if "idsIssued w"
    using that by (auto simp: idsIssued_def list_all_iff updateJournalEntry_def assms(1))
  moreover have same: "nextId (updateJournalEntry j upd w) = nextId w"
    by (simp add: updateJournalEntry_def)
  moreover have "entryStage i w \<le> entryStage i (updateJournalEntry j upd w)" for i
    by (cases "getJournalEntryById i w")
       (auto simp: entryStage_def lookup_update[of upd, OF assms(1)] same assms(2))
  ultimately show ?thesis
    by (simp add: advances_def)
qed

lemma advances_permanentlyDelete: "advances w (permanentlyDeleteJournalEntry j w)"
proof -
  have "idsIssued (permanentlyDeleteJournalEntry j w)" if "idsIssued w"
    using that by (auto simp: idsIssued_def list_all_iff permanentlyDeleteJournalEntry_def)
  moreover have same: "nextId (permanentlyDeleteJournalEntry j w) = nextId w"
    by (simp add: permanentlyDeleteJournalEntry_def)
  moreover have "entryStage i w \<le> entryStage i (permanentlyDeleteJournalEntry j w)"
    if "idsIssued w" for i
  proof (cases "getJournalEntryById i w")
    case None
    then show ?thesis
      by (simp add: entryStage_def lookup_permanentlyDelete same)
  next
    case (Some e)
    then have "je_id e = i" and "e \<in> set (journalEntries w)"
      by (auto simp: getJournalEntryById_def find_Some_iff in_set_conv_nth)
    with that have "i < nextId w"
      by (auto simp: idsIssued_def list_all_iff)
    with Some show ?thesis
      by (simp add: entryStage_def lookup_permanentlyDelete same)
  qed
  ultimately show ?thesis
    by (simp add: advances_def)
qed


subsection \<open>The same, after any earlier steps\<close>

lemma adv_logCall: "advances w v \<Longrightarrow> advances w (logCall c v)"
  by (rule advances_then[OF advances_frame]) (simp_all add: logCall_def)

lemma adv_create: "advances w v \<Longrightarrow> advances w (snd (createJournalEntry ins v))"
  by (rule advances_then[OF advances_create])

lemma adv_sentiment: "advances w v \<Longrightarrow> advances w (updateJournalEntrySentiment i sn v)"
  unfolding updateJournalEntrySentiment_def
  by (rule advances_then[OF advances_update]) simp_all

lemma adv_delete: "advances w v \<Longrightarrow> advances w (deleteJournalEntry i v)"
  unfolding deleteJournalEntry_def
  by (rule advances_then[OF advances_update]) simp_all

lemma adv_restore: "advances w v \<Longrightarrow> advances w (restoreJournalEntry i v)"
  unfolding restoreJournalEntry_def
  by (rule advances_then[OF advances_update]) simp_all

lemma adv_setAnalyzed: "advances w v \<Longrightarrow> advances w (updateJournalEntry i setAnalyzedTrue v)"
  by (rule advances_then[OF advances_update]) (simp_all add: setAnalyzedTrue_def)

lemma adv_permanentlyDelete: "advances w v \<Longrightarrow> advances w (permanentlyDeleteJournalEntry i v)"
  by (rule advances_then[OF advances_permanentlyDelete])

lemma adv_fold:
  assumes "\<And>x v. advances w v \<Longrightarrow> advances w (f x v)"
  shows "advances w v \<Longrightarrow> advances w (fold f xs v)"
  by (induction xs arbitrary: v) (simp_all add: assms)

lemma adv_updateGoalProgress: "advances w v \<Longrightarrow> advances w (updateGoalProgress i p v)"
  by (rule advances_then[OF advances_frame]) (simp_all add: updateGoalProgress_def)

lemma adv_createGoal: "advances w v \<Longrightarrow> advances w (snd (createGoal ins v))"
  by (rule advances_then[OF advances_frame]) (simp_all add: createGoal_def Let_def)

lemma adv_updateMatchingGoal: "advances w v \<Longrightarrow> advances w (updateMatchingGoal userId g v)"
  by (simp add: updateMatchingGoal_def adv_updateGoalProgress split: option.splits)

lemma adv_processChatGoal: "advances w v \<Longrightarrow> advances w (processChatGoal userId g v)"
  by (simp add: processChatGoal_def adv_updateMatchingGoal adv_createGoal)

lemma adv_analyzeAndStore: "advances w v \<Longrightarrow> advances w (snd (analyzeAndStore env i c v))"
  by (simp add: analyzeAndStore_def Let_def adv_logCall adv_sentiment split: option.splits)

lemma adv_startOrMark: "advances w v \<Longrightarrow> advances w (startOrMark i c v)"
  by (simp add: startOrMark_def adv_logCall adv_setAnalyzed)

lemma adv_createAiGoal: "advances w v \<Longrightarrow> advances w (createAiGoal ins v)"
  by (rule advances_then[OF advances_frame]) (simp_all add: createAiGoal_def)

lemma adv_createAiTask: "advances w v \<Longrightarrow> advances w (createAiTask ins v)"
  by (rule advances_then[OF advances_frame]) (simp_all add: createAiTask_def)

lemma adv_createAiHabit: "advances w v \<Longrightarrow> advances w (createAiHabit ins v)"
  by (rule advances_then[OF advances_frame]) (simp_all add: createAiHabit_def)

lemma adv_deleteAiGoal: "advances w v \<Longrightarrow> advances w (deleteAiGoal i v)"
  by (rule advances_then[OF advances_frame]) (simp_all add: deleteAiGoal_def)

lemma adv_deleteAiTask: "advances w v \<Longrightarrow> advances w (deleteAiTask i v)"
  by (rule advances_then[OF advances_frame]) (simp_all add: deleteAiTask_def)

lemma adv_deleteAiHabit: "advances w v \<Longrightarrow> advances w (deleteAiHabit i v)"
  by (rule advances_then[OF advances_frame]) (simp_all add: deleteAiHabit_def)

lemma adv_acceptAiGoal: "acceptAiGoal i v = Some (g, v') \<Longrightarrow> advances w v \<Longrightarrow> advances w v'"
  by (rule advances_then[OF advances_frame])
     (auto simp: acceptAiGoal_def deleteAiGoal_def Let_def split: option.splits)

lemma adv_acceptAiTask: "acceptAiTask i v = Some (t, v') \<Longrightarrow> advances w v \<Longrightarrow> advances w v'"
  by (rule advances_then[OF advances_frame])
     (auto simp: acceptAiTask_def deleteAiTask_def Let_def split: option.splits)

lemma adv_acceptAiHabit: "acceptAiHabit i v = Some (h, v') \<Longrightarrow> advances w v \<Longrightarrow> advances w v'"
  by (rule advances_then[OF advances_frame])
     (auto simp: acceptAiHabit_def deleteAiHabit_def Let_def split: option.splits)

lemma adv_markAnalyzed: "advances w v \<Longrightarrow> advances w (markAnalyzed ids v)"
  unfolding markAnalyzed_def by (rule adv_fold) (rule adv_setAnalyzed)

lemma adv_dedupLoop:
  assumes "\<And>c v. advances w v \<Longrightarrow> advances w (persist c v)"
  shows "advances w v \<Longrightarrow> advances w (snd (snd (dedupLoop textOf persist cs pool v)))"
  by (induction cs arbitrary: pool v) (simp_all add: assms case_prod_beta)

lemma adv_persistGoal: "advances w v \<Longrightarrow> advances w (persistGoal userId c v)"
  by (simp add: persistGoal_def adv_createAiGoal)

lemma adv_persistTask: "advances w v \<Longrightarrow> advances w (persistTask userId c v)"
  by (simp add: persistTask_def adv_createAiTask)

lemma adv_persistHabit: "advances w v \<Longrightarrow> advances w (persistHabit userId c v)"
  by (simp add: persistHabit_def adv_createAiHabit)

lemma adv_runForUser: "advances w v \<Longrightarrow> advances w (snd (runForUser env userId limit v))"
  by (auto simp: runForUser_def Let_def case_prod_beta split: sum.splits
      intro!: adv_markAnalyzed adv_logCall adv_dedupLoop[OF adv_persistGoal]
        adv_dedupLoop[OF adv_persistTask] adv_dedupLoop[OF adv_persistHabit])

lemma adv_processAllEntriesForUser:
  "advances w v \<Longrightarrow> advances w (snd (processAllEntriesForUser env userId limit v))"
  by (simp add: processAllEntriesForUser_def adv_runForUser)

subsection \<open>Every request advances the state\<close>

lemma adv_postJournalEntries: "advances w (snd (postJournalEntries env req_user body w))"
  by (auto simp: postJournalEntries_def saveJournalEntry_def Let_def case_prod_beta
      advances_refl split: option.splits
      intro!: adv_logCall adv_fold adv_updateMatchingGoal adv_startOrMark adv_analyzeAndStore
        adv_create)

lemma adv_saveChat: "advances w (snd (saveChat env req_user body w))"
  by (auto simp: saveChat_def Let_def case_prod_beta advances_refl split: option.splits
      intro!: adv_logCall adv_fold adv_processChatGoal adv_delete adv_sentiment adv_create)

lemma adv_entryHandler:
  assumes "\<And>i v. advances w v \<Longrightarrow> advances w (storageOp i v)"
  shows "advances w (snd (entryHandler storageOp forbidden req_user i w))"
  by (auto simp: entryHandler_def advances_refl assms split: option.splits)

lemma adv_suggestionsHandler:
  "advances w (snd (suggestionsHandler emptyBody fullBody failed (processAllEntriesForUser env)
                      env' req_user userId w))"
  using adv_processAllEntriesForUser[OF advances_refl, of w env userId "Some 3"]
  by (auto simp: suggestionsHandler_def advances_refl Let_def split: option.splits sum.splits prod.splits)

lemma adv_processUser:
  "advances w (snd (processUser (processAllEntriesForUser env) req_user userId w))"
  using adv_processAllEntriesForUser[OF advances_refl, of w env userId None]
  by (auto simp: processUser_def advances_refl split: option.splits sum.splits prod.splits)

lemma adv_tasksRouterSuggestions:
  "advances w (snd (tasksRouterSuggestions env req_user userId w))"
  by (auto simp: tasksRouterSuggestions_def Let_def advances_refl split: option.splits
      intro!: adv_logCall)

lemma adv_accept: "advances w (snd (accept k req_user i w))"
  by (cases k)
     (auto simp: postAiGoalAccept_def postAiTaskAccept_def postAiHabitAccept_def
        acceptHandler_def advances_refl split: option.splits
        intro: adv_acceptAiGoal adv_acceptAiTask adv_acceptAiHabit)

lemma adv_reject: "advances w (snd (reject k req_user i w))"
  by (cases k)
     (auto simp: deleteAiGoalHandler_def deleteAiTaskHandler_def deleteAiHabitHandler_def
        rejectHandler_def advances_refl split: option.splits
        intro!: adv_deleteAiGoal adv_deleteAiTask adv_deleteAiHabit)

lemma adv_serve: "advances w (serve env r w)"
proof (cases r)
  case (PostJournalEntries req_user body)
  then show ?thesis by (simp add: adv_postJournalEntries)
next
  case (SaveChat req_user body)
  then show ?thesis by (simp add: adv_saveChat)
next
  case (DeleteJournalEntry req_user i)
  then show ?thesis
    by (simp add: deleteJournalEntryHandler_def adv_entryHandler adv_delete)
next
  case (RestoreJournalEntry req_user i)
  then show ?thesis
    by (simp add: restoreJournalEntryHandler_def adv_entryHandler adv_restore)
next
  case (PermanentlyDeleteJournalEntry req_user i)
  then show ?thesis
    by (simp add: permanentDeleteHandler_def adv_entryHandler adv_permanentlyDelete)
next
  case (GenerateSuggestions req_user userId)
  then show ?thesis by (simp add: generateSuggestions_def adv_suggestionsHandler)
next
  case (TaskSuggestions req_user userId)
  then show ?thesis by (simp add: adv_tasksRouterSuggestions)
next
  case (HabitSuggestions req_user userId)
  then show ?thesis by (simp add: habitSuggestions_def adv_suggestionsHandler)
next
  case (ProcessUser req_user userId)
  then show ?thesis by (simp add: adv_processUser)
next
  case (ProcessAllJournalEntries req_user)
  then show ?thesis
    by (auto simp: processAllJournalEntries_def advances_refl split: option.splits
        intro!: adv_logCall)
next
  case (Accept k req_user i)
  then show ?thesis by (simp add: adv_accept)
next
  case (Reject k req_user i)
  then show ?thesis by (simp add: adv_reject)
next
  case (BackgroundRun userId limit)
  then show ?thesis by (simp add: adv_runForUser advances_refl)
qed

subsection \<open>The flag along a sequence of requests\<close>

lemma flag_False_stage: "analyzedFlag i w = Some False \<longleftrightarrow> entryStage i w = 1"
  by (auto simp: analyzedFlag_def entryStage_def split: option.splits)

lemma flag_True_stage: "analyzedFlag i w = Some True \<longleftrightarrow> entryStage i w = 2"
  by (auto simp: analyzedFlag_def entryStage_def split: option.splits)

lemma risings_single [simp]: "risings i [w] = 0"
  by (simp add: risings_def)

lemma reverts_single [simp]: "reverts i [w] = 0"
  by (simp add: reverts_def)

lemma risings_step:
  "risings i (a # b # ws)
     = (if entryStage i a = 1 \<and> entryStage i b = 2 then 1 else 0) + risings i (b # ws)"
  by (simp add: risings_def flag_False_stage flag_True_stage)

lemma reverts_step:
  "reverts i (a # b # ws)
     = (if entryStage i a = 2 \<and> entryStage i b = 1 then 1 else 0) + reverts i (b # ws)"
  by (simp add: reverts_def flag_False_stage flag_True_stage)

lemma stages_along_trace:
  assumes "idsIssued w"
  shows "risings i (w # trace rs w) \<le> 1 \<and>
         (2 \<le> entryStage i w \<longrightarrow> risings i (w # trace rs w) = 0) \<and>
         reverts i (w # trace rs w) = 0"
  using assms
proof (induction rs arbitrary: w)
  case Nil
  then show ?case by simp
next
  case (Cons p rs)
  obtain env r where p: "p = (env, r)" by (cases p)
  let ?w' = "serve env r w"
  from adv_serve[of w env r] Cons.prems
  have issued: "idsIssued ?w'" and mono: "entryStage i w \<le> entryStage i ?w'"
    by (auto simp: advances_def)
  from Cons.IH[OF issued]
  have ih: "risings i (?w' # trace rs ?w') \<le> 1"
    "2 \<le> entryStage i ?w' \<longrightarrow> risings i (?w' # trace rs ?w') = 0"
    "reverts i (?w' # trace rs ?w') = 0"
    by auto
  show ?case
    using ih mono by (auto simp: p risings_step reverts_step)
qed

text \<open>
  C6. Start from a state whose journal entries carry ids that the counter has issued, and
  serve any sequence of requests: saving journal entries and chats, deleting, restoring
  and permanently deleting entries, the suggestion endpoints, the manual and the
  administrative trigger, accepts and rejects, and detached runs of the pipeline, each
  with whatever the collaborators answer at that moment. Then for every entry id the flag
  \<open>analyzed\<close> goes from false to true between two successive states at most once, and
  never from true to false. (The command-line script that resets every entry by hand is
  not a request of this kind.)
\<close>

theorem analyzed_flag_rises_at_most_once:
  assumes "idsIssued w"
  shows "risings i (w # trace rs w) \<le> 1 \<and> reverts i (w # trace rs w) = 0"
  using stages_along_trace[OF assms] by blast

lemma long_entry_rises:
  "risings 1 (emptyWorld #
      trace [(silentEnv, PostJournalEntries (Some alice) longEntry),
             (silentEnv, BackgroundRun 1 3),
             (silentEnv, BackgroundRun 1 5)] emptyWorld) = 1"
  by code_simp

theorem analyzed_flag_rises_at_most_once_witness:
  "risings 1 (emptyWorld #
      trace [(silentEnv, PostJournalEntries (Some alice) longEntry),
             (silentEnv, BackgroundRun 1 3),
             (silentEnv, BackgroundRun 1 5)] emptyWorld) = 1 \<and>
   reverts 1 (emptyWorld #
      trace [(silentEnv, PostJournalEntries (Some alice) longEntry),
             (silentEnv, BackgroundRun 1 3),
             (silentEnv, BackgroundRun 1 5)] emptyWorld) = 0"
proof -
  have issued: "idsIssued emptyWorld"
    by (simp add: idsIssued_def emptyWorld_def)
  from analyzed_flag_rises_at_most_once[OF issued, of 1
      "[(silentEnv, PostJournalEntries (Some alice) longEntry),
        (silentEnv, BackgroundRun 1 3),
        (silentEnv, BackgroundRun 1 5)]"]
    long_entry_rises
  show ?thesis by blast
qed

section \<open>Short entries\<close>

subsection \<open>Calls and flags through the steps of saving an entry\<close>

lemma calls_logCall [simp]: "calls (logCall c w) = calls w @ [c]"
  by (simp add: logCall_def)

lemma nextId_logCall [simp]: "nextId (logCall c w) = nextId w"
  by (simp add: logCall_def)

lemma idsIssued_logCall [simp]: "idsIssued (logCall c w) = idsIssued w"
  by (simp add: logCall_def idsIssued_def)

lemma flag_logCall [simp]: "analyzedFlag i (logCall c w) = analyzedFlag i w"
  by (simp add: analyzedFlag_def)


lemma calls_create [simp]: "calls (snd (createJournalEntry ins w)) = calls w"
  by (simp add: createJournalEntry_def Let_def)


lemma calls_update [simp]: "calls (updateJournalEntry i upd w) = calls w"
  by (simp add: updateJournalEntry_def)

lemma calls_analyzeAndStore [simp]:
  "calls (snd (analyzeAndStore env i c w)) = calls w @ [AnalyzeSentiment c]"
  by (simp add: analyzeAndStore_def Let_def updateJournalEntrySentiment_def split: option.splits)

lemma flag_analyzeAndStore [simp]:
  "analyzedFlag i (snd (analyzeAndStore env j c w)) = analyzedFlag i w"
  by (cases "getJournalEntryById i w")
     (simp_all add: analyzeAndStore_def Let_def updateJournalEntrySentiment_def analyzedFlag_def
        lookup_update split: option.splits)



lemma goals_fold_frame:
  "journalEntries (fold (updateMatchingGoal userId) gs w) = journalEntries w \<and>
   calls (fold (updateMatchingGoal userId) gs w) = calls w"
  by (induction gs arbitrary: w)
     (simp_all add: updateMatchingGoal_def updateGoalProgress_def split: option.splits)

lemma flag_goals_fold [simp]:
  "analyzedFlag i (fold (updateMatchingGoal userId) gs w) = analyzedFlag i w"
  by (simp add: analyzedFlag_def getJournalEntryById_def goals_fold_frame)

lemma calls_goals_fold [simp]: "calls (fold (updateMatchingGoal userId) gs w) = calls w"
  by (simp add: goals_fold_frame)

text \<open>
  POST /api/journal-entries/save-chat saves something only when the user has chat turns,
  entries with \<open>isJournal\<close> false: from any other state it answers with an error and
  leaves the state as it is.
\<close>

lemma saveChat_needs_chat_turns:
  assumes "\<forall>e\<in>set (journalEntries w). je_isJournal e"
  shows "snd (saveChat env req_user body w) = w \<and>
         statusCode (fst (saveChat env req_user body w)) \<in> {400, 401, 403}"
proof -
  have "set (getRecentJournalEntriesByUserId userId 50 w) \<subseteq> set (journalEntries w)" for userId
    by (auto simp: getRecentJournalEntriesByUserId_def dest!: in_set_takeD)
  with assms have "filter (\<lambda>e. \<not> je_isJournal e) (getRecentJournalEntriesByUserId userId 50 w) = []"
    for userId
    by (auto simp: filter_empty_conv)
  then show ?thesis
    by (simp add: saveChat_def Let_def split: option.splits)
qed




section \<open>How many entries a request for suggestions considers\<close>

lemma calls_markAnalyzed [simp]: "calls (markAnalyzed ids w) = calls w"
  unfolding markAnalyzed_def by (induction ids arbitrary: w) simp_all



lemma unanalyzed_set:
  "set (getUnanalyzedJournalEntriesByUserId userId w)
     = {e \<in> set (journalEntries w). je_userId e = userId \<and> je_isJournal e \<and> \<not> je_analyzed e}"
  by (auto simp: getUnanalyzedJournalEntriesByUserId_def)















section \<open>A run with nothing to analyze\<close>

lemma no_unanalyzed:
  assumes "\<forall>e\<in>set (journalEntries w). je_userId e = userId \<and> je_isJournal e \<longrightarrow> je_analyzed e"
  shows "getUnanalyzedJournalEntriesByUserId userId w = []"
proof -
  have "filter (\<lambda>e. je_userId e = userId \<and> je_isJournal e \<and> \<not> je_analyzed e)
          (journalEntries w) = []"
    using assms by (auto simp: filter_empty_conv)
  then show ?thesis by (simp add: getUnanalyzedJournalEntriesByUserId_def)
qed

lemma suggestionsHandler_nothing_to_do:
  assumes "getUnanalyzedJournalEntriesByUserId (user_id u) w = []" and "openaiApiKey env"
  shows "suggestionsHandler emptyBody fullBody failed run env (Some u) (user_id u) w
           = (Json 200 (emptyBody (user_id u) w zeroSummary (Some noEntriesMessage)), w)"
  using assms by (simp add: suggestionsHandler_def)

lemma entries_markAnalyzed:
  "journalEntries (markAnalyzed ids w)
     = map (\<lambda>e. if je_id e \<in> set ids then setAnalyzedTrue e else e) (journalEntries w)"
proof (induction ids arbitrary: w)
  case Nil
  then show ?case by (simp add: markAnalyzed_def)
next
  case (Cons i ids)
  have "journalEntries (markAnalyzed (i # ids) w)
          = journalEntries (markAnalyzed ids (updateJournalEntry i setAnalyzedTrue w))"
    by (simp add: markAnalyzed_def)
  also have "\<dots> = map (\<lambda>e. if je_id e \<in> set ids then setAnalyzedTrue e else e)
                     (journalEntries (updateJournalEntry i setAnalyzedTrue w))"
    by (rule Cons.IH)
  also have "\<dots> = map (\<lambda>e. if je_id e \<in> set (i # ids) then setAnalyzedTrue e else e)
                     (journalEntries w)"
    by (auto simp: updateJournalEntry_def setAnalyzedTrue_def)
  finally show ?case .
qed

lemma entries_dedupLoop:
  assumes "\<And>c v. journalEntries (persist c v) = journalEntries v"
  shows "journalEntries (snd (snd (dedupLoop textOf persist cs pool w))) = journalEntries w"
  by (induction cs arbitrary: pool w) (simp_all add: assms case_prod_beta)

lemma entries_runForUser:
  assumes "fst (runForUser env userId limit w) = Inr summary"
  shows "journalEntries (snd (runForUser env userId limit w))
           = map (\<lambda>e. if je_id e \<in> je_id ` set (selectUnanalyzed userId limit w)
                       then setAnalyzedTrue e else e) (journalEntries w)"
proof -
  have g: "\<And>c v. journalEntries (persistGoal userId c v) = journalEntries v"
    by (simp add: persistGoal_def createAiGoal_def)
  have t: "\<And>c v. journalEntries (persistTask userId c v) = journalEntries v"
    by (simp add: persistTask_def createAiTask_def)
  have h: "\<And>c v. journalEntries (persistHabit userId c v) = journalEntries v"
    by (simp add: persistHabit_def createAiHabit_def)
  show ?thesis
    using assms
    by (auto simp: runForUser_def Let_def case_prod_beta entries_markAnalyzed logCall_def
          entries_dedupLoop[OF g] entries_dedupLoop[OF t] entries_dedupLoop[OF h]
          split: sum.splits if_splits)
qed

lemma nothing_left_after_full_run:
  assumes "length (getUnanalyzedJournalEntriesByUserId userId w) \<le> n"
    and "fst (runForUser env userId n w) = Inr summary"
  shows "getUnanalyzedJournalEntriesByUserId userId (snd (runForUser env userId n w)) = []"
proof -
  have all: "selectUnanalyzed userId n w = getUnanalyzedJournalEntriesByUserId userId w"
    using assms(1) by (simp add: selectUnanalyzed_def)
  have "filter (\<lambda>e. je_userId e = userId \<and> je_isJournal e \<and> \<not> je_analyzed e)
          (journalEntries (snd (runForUser env userId n w))) = []"
    unfolding entries_runForUser[OF assms(2)] all
    by (auto simp: filter_empty_conv unanalyzed_set setAnalyzedTrue_def)
  then show ?thesis
    by (simp add: getUnanalyzedJournalEntriesByUserId_def)
qed

lemma suggestionsHandler_ok:
  assumes "statusCode (fst (suggestionsHandler emptyBody fullBody failed run env (Some u) (user_id u) w)) = 200"
  shows "getUnanalyzedJournalEntriesByUserId (user_id u) w = [] \<and>
           snd (suggestionsHandler emptyBody fullBody failed run env (Some u) (user_id u) w) = w
         \<or> (\<exists>summary. fst (run (user_id u) (Some 3) w) = Inr summary) \<and>
           snd (suggestionsHandler emptyBody fullBody failed run env (Some u) (user_id u) w)
             = snd (run (user_id u) (Some 3) w)"
  using assms
  by (auto simp: suggestionsHandler_def Let_def split: if_splits sum.splits prod.splits)

lemma second_request_finds_nothing:
  assumes "length (getUnanalyzedJournalEntriesByUserId (user_id u) w) \<le> 3"
    and "statusCode (fst (generateSuggestions (processAllEntriesForUser env) env (Some u)
                            (user_id u) w)) = 200"
  shows "getUnanalyzedJournalEntriesByUserId (user_id u)
           (snd (generateSuggestions (processAllEntriesForUser env) env (Some u) (user_id u) w))
         = []"
  using suggestionsHandler_ok[OF assms(2)[unfolded generateSuggestions_def]]
    nothing_left_after_full_run[OF assms(1)]
  by (auto simp: generateSuggestions_def processAllEntriesForUser_def)

text \<open>
  C2. Take a user none of whose journal entries is unanalyzed, a session of that user, and
  the API key configured. Then GET /api/goals/:userId/generate-suggestions answers 200
  with a summary whose six counters are zero, and so does the habit endpoint of
  \<open>routes.ts\<close>. The answer and the state left are the same for every function \<open>run\<close>
  standing for \<open>processAllEntriesForUser\<close>: the run is not called, so no extraction
  request is made and the state, with its record of calls, is the state before the
  request. Since the state is unchanged, a second request right after the first gets
  the same all-zero answer. The run of the specification itself, asked directly with
  any limit or with none, returns the zero summary and leaves the state alone as well.
  Moreover, when a user has at most three unanalyzed entries and a first request, served
  by the run of the specification, is answered with 200, that run has marked them all,
  and a second request with no new entry in between is answered with the all-zero
  summary without calling the run.
\<close>

theorem nothing_unanalyzed_zero_summary:
  assumes "\<forall>e\<in>set (journalEntries w). je_userId e = user_id u \<and> je_isJournal e \<longrightarrow> je_analyzed e"
    and "openaiApiKey env"
  shows "generateSuggestions run env (Some u) (user_id u) w
           = (Json 200 \<lparr>sb_goals = Some [], sb_habits = Some [],
                        sb_summary = zeroSummary, sb_message = Some noEntriesMessage\<rparr>, w) \<and>
         generateSuggestions run env (Some u) (user_id u)
             (snd (generateSuggestions run env (Some u) (user_id u) w))
           = generateSuggestions run env (Some u) (user_id u) w \<and>
         habitSuggestions run env (Some u) (user_id u) w
           = (Json 200 \<lparr>sb_goals = None,
                        sb_habits = Some (getAISuggestedHabits (user_id u) w),
                        sb_summary = zeroSummary, sb_message = Some noEntriesMessage\<rparr>, w) \<and>
         runForUser env (user_id u) n w = (Inr zeroSummary, w) \<and>
         processAllEntriesForUser env (user_id u) limit w = (Inr zeroSummary, w) \<and>
         (length (getUnanalyzedJournalEntriesByUserId (user_id u) w0) \<le> 3 \<and>
          statusCode (fst (generateSuggestions (processAllEntriesForUser env0) env0 (Some u)
                             (user_id u) w0)) = 200 \<longrightarrow>
            generateSuggestions run env (Some u) (user_id u)
                (snd (generateSuggestions (processAllEntriesForUser env0) env0 (Some u)
                        (user_id u) w0))
              = (Json 200 \<lparr>sb_goals = Some [], sb_habits = Some [],
                           sb_summary = zeroSummary, sb_message = Some noEntriesMessage\<rparr>,
                 snd (generateSuggestions (processAllEntriesForUser env0) env0 (Some u)
                        (user_id u) w0))) \<and>
         goalsCreated zeroSummary = 0 \<and> tasksCreated zeroSummary = 0 \<and>
         habitsCreated zeroSummary = 0 \<and> goalsSkipped zeroSummary = 0 \<and>
         tasksSkipped zeroSummary = 0 \<and> habitsSkipped zeroSummary = 0"
proof -
  have none: "getUnanalyzedJournalEntriesByUserId (user_id u) w = []"
    using assms(1) by (rule no_unanalyzed)
  have run: "runForUser env (user_id u) k w = (Inr zeroSummary, w)" for k
    using none by (simp add: runForUser_def selectUnanalyzed_def)
  have whole: "processAllEntriesForUser env (user_id u) limit w = (Inr zeroSummary, w)"
    by (simp add: processAllEntriesForUser_def run)
  have again: "generateSuggestions run env (Some u) (user_id u)
                (snd (generateSuggestions (processAllEntriesForUser env0) env0 (Some u)
                        (user_id u) w0))
              = (Json 200 \<lparr>sb_goals = Some [], sb_habits = Some [],
                           sb_summary = zeroSummary, sb_message = Some noEntriesMessage\<rparr>,
                 snd (generateSuggestions (processAllEntriesForUser env0) env0 (Some u)
                        (user_id u) w0))"
    if "length (getUnanalyzedJournalEntriesByUserId (user_id u) w0) \<le> 3"
      and "statusCode (fst (generateSuggestions (processAllEntriesForUser env0) env0 (Some u)
                              (user_id u) w0)) = 200"
  proof -
    note left = second_request_finds_nothing[OF that, unfolded generateSuggestions_def]
    show ?thesis
      unfolding generateSuggestions_def
      by (rule suggestionsHandler_nothing_to_do[OF left assms(2)])
  qed
  show ?thesis
    using run whole again
    by (simp add: generateSuggestions_def habitSuggestions_def
          suggestionsHandler_nothing_to_do[OF none assms(2)] zeroSummary_def)
qed

lemma reading_first_request:
  "length (getUnanalyzedJournalEntriesByUserId (user_id alice) readingWorld) \<le> 3 \<and>
   statusCode (fst (generateSuggestions (processAllEntriesForUser readingEnv) readingEnv
                      (Some alice) (user_id alice) readingWorld)) = 200"
  by code_simp

theorem nothing_unanalyzed_zero_summary_witness:
  "generateSuggestions (processAllEntriesForUser silentEnv) silentEnv (Some alice)
       (user_id alice) analyzedWorld
     = (Json 200 \<lparr>sb_goals = Some [], sb_habits = Some [],
                  sb_summary = zeroSummary, sb_message = Some noEntriesMessage\<rparr>,
        analyzedWorld) \<and>
   runForUser silentEnv (user_id alice) 3 analyzedWorld = (Inr zeroSummary, analyzedWorld) \<and>
   processAllEntriesForUser silentEnv (user_id alice) None analyzedWorld
     = (Inr zeroSummary, analyzedWorld) \<and>
   generateSuggestions (processAllEntriesForUser silentEnv) silentEnv (Some alice)
       (user_id alice)
       (snd (generateSuggestions (processAllEntriesForUser readingEnv) readingEnv (Some alice)
               (user_id alice) readingWorld))
     = (Json 200 \<lparr>sb_goals = Some [], sb_habits = Some [],
                  sb_summary = zeroSummary, sb_message = Some noEntriesMessage\<rparr>,
        snd (generateSuggestions (processAllEntriesForUser readingEnv) readingEnv (Some alice)
               (user_id alice) readingWorld))"
proof -
  have allDone: "\<forall>e\<in>set (journalEntries analyzedWorld).
                je_userId e = user_id alice \<and> je_isJournal e \<longrightarrow> je_analyzed e"
    by (simp add: analyzedWorld_def emptyWorld_def)
  have key: "openaiApiKey silentEnv"
    by (simp add: silentEnv_def)
  from nothing_unanalyzed_zero_summary[OF allDone key,
         where run = "processAllEntriesForUser silentEnv" and n = 3 and limit = None
         and ?w0.0 = readingWorld and ?env0.0 = readingEnv] reading_first_request
  show ?thesis by blast
qed

end
